theory Spec2Isabelle
  imports Complex_Main
begin

section \<open>Data model (src/types.ts and the refs of src/App.tsx)\<close>

text \<open>
  The voice session of \<^verbatim>\<open>src/App.tsx\<close> is embedded with explicit state passing: the
  React state (\<open>status\<close>, \<open>messages\<close>) and the five refs of the component are the
  fields of one record, and every callback is a function from the state to the next one.
  Calls into the browser (Web Audio nodes, the live session handle, \<open>alert\<close>) are
  recorded, in order, in the field \<open>calls\<close>.

  Times on the output clock (\<open>ctx.currentTime\<close>, \<open>buffer.duration\<close>) are JavaScript
  numbers; they are idealised as reals. \<open>Date.now()\<close> is an integer of milliseconds.
  A string is a list of code units below 256.
\<close>

datatype SessionStatus = IDLE | CONNECTING | ACTIVE | ERROR

datatype role = User | Model

record ChatMessage =
  id_msg :: string
  role :: role
  text_msg :: string
  timestamp :: int

type_synonym handle = nat

text \<open>
  An \<open>AudioBufferSourceNode\<close>: an object identity, the duration of the buffer assigned
  to it and the time passed to \<open>source.start\<close>.
\<close>

record source_node =
  node :: nat
  buffer_duration :: real
  startedAt :: real

record transcription_buffer =
  user :: string
  model :: string

datatype call =
    SessionClose handle
  | ContextClose handle
  | SourceStart source_node
  | SourceStop source_node
  | Alert

datatype error = ApiKeyMissing | MalformedPayload | TruncatedPcm | DeviceAcquisitionFailure | StreamError

datatype outcome = Returned | Raised error

record app =
  status :: SessionStatus
  messages :: "ChatMessage list"
  sessionRef :: "handle option"
  audioContextsRef :: "(handle \<times> handle) option"
  sourcesRef :: "source_node list"
  nextStartTimeRef :: real
  transcriptionBufferRef :: transcription_buffer
  nodesCreated :: nat
  calls :: "call list"

text \<open>
  Two fields are not refs of the component but its surroundings: \<open>nodesCreated\<close>
  counts the source nodes \<open>createBufferSource\<close> has returned, so that each new node
  has an identity of its own, and \<open>calls\<close> is the sequence of calls made so far.
\<close>

text \<open>
  The state of a freshly mounted component (lines 21-29): \<open>useState\<close> and \<open>useRef\<close>
  initial values; no node was created and no call was made.
\<close>

definition initial :: app where
  "initial =
     \<lparr>status = IDLE, messages = [], sessionRef = None, audioContextsRef = None,
      sourcesRef = [], nextStartTimeRef = 0,
      transcriptionBufferRef = \<lparr>user = [], model = []\<rparr>,
      nodesCreated = 0, calls = []\<rparr>"

text \<open>
  The inbound message, with the optional chaining of the handler resolved: a field is
  \<open>None\<close> (or \<open>False\<close>) when \<open>serverContent\<close> or the field itself is absent.
  \<open>audioData\<close> is \<open>serverContent?.modelTurn?.parts[0]?.inlineData?.data\<close>.
\<close>

record server_message =
  inputTranscription :: "string option"
  outputTranscription :: "string option"
  turnComplete :: bool
  audioData :: "string option"
  interrupted :: bool

text \<open>
  The four \<open>Date.now()\<close> reads of one \<open>setMessages\<close> updater (lines 87-88), in
  evaluation order: the user message's id and timestamp, the model message's id and
  timestamp.
\<close>

record date_reads =
  now_uid :: int
  now_uts :: int
  now_mid :: int
  now_mts :: int

section \<open>Strings: \<open>trim\<close> and template literals\<close>

text \<open>
  The white space and line terminators that \<open>String.prototype.trim\<close> removes, among
  the code units below 256: TAB, LF, VT, FF, CR, SP and NBSP.
\<close>

definition is_space :: "char \<Rightarrow> bool" where
  "is_space c = (of_char c \<in> {9, 10, 11, 12, 13, 32, 160 :: nat})"

definition trim :: "string \<Rightarrow> string" where
  "trim s = rev (dropWhile is_space (rev (dropWhile is_space s)))"

definition digit_char :: "nat \<Rightarrow> char" where
  "digit_char d = ''0123456789'' ! d"

fun digits :: "nat \<Rightarrow> string" where
  "digits n = (if n < 10 then [digit_char n] else digits (n div 10) @ [digit_char (n mod 10)])"

declare digits.simps [simp del]

text \<open>The decimal text JavaScript gives an integer inside a template literal.\<close>

definition number_text :: "int \<Rightarrow> string" where
  "number_text i = (if i < 0 then CHR ''-'' # digits (nat (- i)) else digits (nat i))"

section \<open>Playback scheduler\<close>

text \<open>\<open>Set.prototype.add\<close>: an element already present keeps its place.\<close>

definition set_add :: "'a \<Rightarrow> 'a list \<Rightarrow> 'a list" where
  "set_add x xs = (if x \<in> set xs then xs else xs @ [x])"

text \<open>
  \<open>stopAudio\<close> (lines 38-42): \<open>stop()\<close> on every source of the set in insertion
  order (an exception of \<open>stop\<close> is swallowed by the \<open>try/catch\<close>), \<open>clear()\<close>,
  cursor to zero.
\<close>

definition stopAudio :: "app \<Rightarrow> app" where
  "stopAudio s =
     s\<lparr>calls := calls s @ map SourceStop (sourcesRef s),
       sourcesRef := [],
       nextStartTimeRef := 0\<rparr>"

text \<open>
  The audio block of \<open>onmessage\<close> (lines 97-105), entered when the payload is truthy
  and the audio contexts exist. The cursor is raised to the clock first (line 98); then
  the payload is decoded (line 99), which may throw and end the handler there; then the
  node is created, started at the cursor, the cursor advanced by the buffer's duration
  and the node added to the set.

  \<open>decode\<close> and \<open>decodeAudioData\<close> live in \<^verbatim>\<open>utils/audio-utils.ts\<close>; their
  composition is the parameter \<open>dec\<close>, giving the decoded buffer's duration or the
  exception thrown.
\<close>

definition enqueue :: "(string \<Rightarrow> error + real) \<Rightarrow> real \<Rightarrow> string \<Rightarrow> app \<Rightarrow> outcome \<times> app" where
  "enqueue dec currentTime audio s =
     (let s1 = s\<lparr>nextStartTimeRef := max (nextStartTimeRef s) currentTime\<rparr> in
      case dec audio of
        Inl e \<Rightarrow> (Raised e, s1)
      | Inr d \<Rightarrow>
          (let source = \<lparr>node = nodesCreated s1, buffer_duration = d,
                         startedAt = nextStartTimeRef s1\<rparr>
           in (Returned,
               s1\<lparr>nodesCreated := Suc (nodesCreated s1),
                  calls := calls s1 @ [SourceStart source],
                  nextStartTimeRef := nextStartTimeRef s1 + d,
                  sourcesRef := set_add source (sourcesRef s1)\<rparr>)))"

text \<open>
  No listener for the \<open>ended\<close> event is attached to a source (lines 100-105 assign the
  buffer, connect and start it, nothing else), so the end of a source's playback runs no
  code of the component.
\<close>

definition onended :: "source_node \<Rightarrow> app \<Rightarrow> app" where
  "onended source s = s"

section \<open>Transcription aggregator\<close>

text \<open>Lines 75-80: each fragment present is appended to its accumulator.\<close>

definition appendTranscription :: "server_message \<Rightarrow> app \<Rightarrow> app" where
  "appendTranscription m s =
     (let b = transcriptionBufferRef s;
          b1 = (case inputTranscription m of None \<Rightarrow> b | Some t \<Rightarrow> b\<lparr>user := user b @ t\<rparr>);
          b2 = (case outputTranscription m of None \<Rightarrow> b1 | Some t \<Rightarrow> b1\<lparr>model := model b1 @ t\<rparr>)
      in s\<lparr>transcriptionBufferRef := b2\<rparr>)"

text \<open>
  The messages the \<open>setMessages\<close> updater appends (lines 87-88); an empty string is
  falsy.
\<close>

definition newMessages :: "date_reads \<Rightarrow> string \<Rightarrow> string \<Rightarrow> ChatMessage list" where
  "newMessages d uText mText =
     (if uText \<noteq> []
      then [\<lparr>id_msg = ''u-'' @ number_text (now_uid d), role = User,
             text_msg = uText, timestamp = now_uts d\<rparr>]
      else [])
     @ (if mText \<noteq> []
        then [\<lparr>id_msg = ''m-'' @ number_text (now_mid d), role = Model,
               text_msg = mText, timestamp = now_mts d\<rparr>]
        else [])"

text \<open>The \<open>turnComplete\<close> branch (lines 82-91).\<close>

definition finalizeTurn :: "date_reads \<Rightarrow> app \<Rightarrow> app" where
  "finalizeTurn d s =
     (let uText = trim (user (transcriptionBufferRef s));
          mText = trim (model (transcriptionBufferRef s));
          s1 = (if uText \<noteq> [] \<or> mText \<noteq> []
                then s\<lparr>messages := messages s @ newMessages d uText mText\<rparr>
                else s)
      in s1\<lparr>transcriptionBufferRef := \<lparr>user = [], model = []\<rparr>\<rparr>)"

section \<open>Session callbacks\<close>

text \<open>
  \<open>onmessage\<close> (lines 73-108). An exception of the decoding leaves the handler at once:
  the state keeps what was written before it and the \<open>interrupted\<close> line is not reached.
\<close>

definition onmessage ::
  "(string \<Rightarrow> error + real) \<Rightarrow> date_reads \<Rightarrow> real \<Rightarrow> server_message \<Rightarrow> app \<Rightarrow> outcome \<times> app" where
  "onmessage dec d currentTime m s =
     (let s1 = appendTranscription m s;
          s2 = (if turnComplete m then finalizeTurn d s1 else s1);
          r = (case audioData m of
                 None \<Rightarrow> (Returned, s2)
               | Some audio \<Rightarrow>
                   if audio \<noteq> [] \<and> audioContextsRef s2 \<noteq> None
                   then enqueue dec currentTime audio s2
                   else (Returned, s2))
      in case fst r of
           Raised e \<Rightarrow> r
         | Returned \<Rightarrow> (Returned, if interrupted m then stopAudio (snd r) else snd r))"

text \<open>\<open>onopen\<close> (line 62), \<open>onerror\<close> (lines 109-112) and \<open>onclose\<close> (line 113).\<close>

definition onopen :: "app \<Rightarrow> app" where
  "onopen s = s\<lparr>status := ACTIVE\<rparr>"

definition onerror :: "app \<Rightarrow> app" where
  "onerror s = s\<lparr>status := ERROR\<rparr>"

definition onclose :: "app \<Rightarrow> app" where
  "onclose s = s\<lparr>status := IDLE\<rparr>"

text \<open>
  What \<open>handleStartSession\<close> (lines 44-129) meets outside the component: the API key,
  the two audio contexts its constructors return, and the results of the two awaited
  promises, \<open>getUserMedia\<close> and \<open>ai.live.connect\<close>. The callbacks passed to
  \<open>connect\<close> are events of their own; a successful start leaves the status
  \<open>CONNECTING\<close> for \<open>onopen\<close> to change.
\<close>

record start_env =
  apiKey :: "string option"
  inputCtx :: handle
  outputCtx :: handle
  userMedia :: "error + handle"
  connected :: "error + handle"

text \<open>The \<open>catch\<close> block (lines 124-128).\<close>

definition startFailed :: "app \<Rightarrow> app" where
  "startFailed s = s\<lparr>status := ERROR, calls := calls s @ [Alert]\<rparr>"

definition handleStartSession :: "start_env \<Rightarrow> app \<Rightarrow> app" where
  "handleStartSession env s =
     (let s1 = s\<lparr>status := CONNECTING\<rparr> in
      if apiKey env = None \<or> apiKey env = Some [] then startFailed s1
      else
        (let s2 = s1\<lparr>audioContextsRef := Some (inputCtx env, outputCtx env)\<rparr> in
         case userMedia env of
           Inl e \<Rightarrow> startFailed s2
         | Inr stream \<Rightarrow>
             (case connected env of
                Inl e \<Rightarrow> startFailed s2
              | Inr session \<Rightarrow> s2\<lparr>sessionRef := Some session\<rparr>)))"

text \<open>\<open>handleStopSession\<close> (lines 131-139).\<close>

definition handleStopSession :: "app \<Rightarrow> app" where
  "handleStopSession s =
     (let s1 = (case sessionRef s of
                  None \<Rightarrow> s
                | Some session \<Rightarrow> s\<lparr>calls := calls s @ [SessionClose session]\<rparr>);
          s2 = stopAudio s1;
          s3 = (case audioContextsRef s2 of
                  None \<Rightarrow> s2
                | Some (input, output) \<Rightarrow>
                    s2\<lparr>calls := calls s2 @ [ContextClose input, ContextClose output]\<rparr>)
      in s3\<lparr>status := IDLE\<rparr>)"

text \<open>
  The button (lines 204-205): disabled while connecting, bound to
  \<open>handleStopSession\<close> while active and to \<open>handleStartSession\<close> otherwise.
\<close>

datatype handler = HandleStopSession | HandleStartSession

definition onClick :: "SessionStatus \<Rightarrow> handler option" where
  "onClick st =
     (if st = CONNECTING then None
      else if st = ACTIVE then Some HandleStopSession
      else Some HandleStartSession)"

section \<open>A decoder for concrete runs\<close>

text \<open>
  Modelled from the spec: \<open>decode\<close> and \<open>decodeAudioData\<close> of
  \<^verbatim>\<open>utils/audio-utils.ts\<close> are not among the sources. The spec's
  \<open>decodeFromTransport\<close> fails with \<open>MalformedPayload\<close> when the text is not valid
  for the binary-to-text encoding, and its \<open>pcmToPlayableBuffer\<close> fails with
  \<open>TruncatedPcm\<close> when the byte length is not a multiple of the frame size (two bytes
  per 16-bit sample and channel). Only the number of decoded bytes is kept, from which
  the duration of the buffer follows. The handler calls them with 24000 Hz, one channel.
\<close>

definition base64_char :: "char \<Rightarrow> bool" where
  "base64_char c =
     (let n = (of_char c :: nat)
      in (65 \<le> n \<and> n \<le> 90) \<or> (97 \<le> n \<and> n \<le> 122) \<or> (48 \<le> n \<and> n \<le> 57) \<or> n = 43 \<or> n = 47)"

definition decodeFromTransport :: "string \<Rightarrow> error + nat" where
  "decodeFromTransport t =
     (let body = takeWhile (\<lambda>c. c \<noteq> CHR ''='') t;
          padding = drop (length body) t
      in if length t mod 4 = 0 \<and> list_all base64_char body
            \<and> length padding \<le> 2 \<and> list_all (\<lambda>c. c = CHR ''='') padding
         then Inr (3 * (length t div 4) - length padding)
         else Inl MalformedPayload)"

definition pcmToPlayableBuffer :: "nat \<Rightarrow> nat \<Rightarrow> nat \<Rightarrow> error + real" where
  "pcmToPlayableBuffer bytes sampleRate channels =
     (if bytes mod (2 * channels) = 0
      then Inr (real (bytes div (2 * channels)) / real sampleRate)
      else Inl TruncatedPcm)"

definition decodeAudio :: "string \<Rightarrow> error + real" where
  "decodeAudio t =
     (case decodeFromTransport t of
        Inl e \<Rightarrow> Inl e
      | Inr bytes \<Rightarrow> pcmToPlayableBuffer bytes 24000 1)"

section \<open>Concrete states\<close>

text \<open>
  A session that was started (session handle 1, audio contexts 2 and 3) and is active,
  and the same session while two sources are scheduled, with the cursor at the end of the
  second one.
\<close>

definition started :: app where
  "started = initial\<lparr>status := ACTIVE, sessionRef := Some 1, audioContextsRef := Some (2, 3)\<rparr>"

definition first_source :: source_node where
  "first_source = \<lparr>node = 0, buffer_duration = 1, startedAt = 0\<rparr>"

definition second_source :: source_node where
  "second_source = \<lparr>node = 1, buffer_duration = 1, startedAt = 1\<rparr>"

definition playing :: app where
  "playing =
     started\<lparr>sourcesRef := [first_source, second_source], nextStartTimeRef := 2,
             nodesCreated := 2, calls := [SourceStart first_source, SourceStart second_source]\<rparr>"

text \<open>
  The accumulators of the scenario: a user fragment, and a model fragment with white
  space around it.
\<close>

definition hi_hello :: app where
  "hi_hello = started\<lparr>transcriptionBufferRef := \<lparr>user = ''Hi'', model = '' Hello ''\<rparr>\<rparr>"

section \<open>Runs of callbacks\<close>

text \<open>
  The callbacks run one after the other on the event loop; the \<open>await\<close> of line 99
  is taken to finish before the next callback starts. An exception thrown by a handler
  ends that handler only: the state it leaves is the state the next event finds.
\<close>

datatype event = Message date_reads real server_message | Ended source_node

fun run :: "(string \<Rightarrow> error + real) \<Rightarrow> event list \<Rightarrow> app \<Rightarrow> app" where
  "run dec [] s = s"
| "run dec (Message d currentTime m # es) s = run dec es (snd (onmessage dec d currentTime m s))"
| "run dec (Ended source # es) s = run dec es (onended source s)"

text \<open>The sources passed to \<open>source.start\<close>, in the order of the calls.\<close>

fun scheduled :: "call list \<Rightarrow> source_node list" where
  "scheduled [] = []"
| "scheduled (SourceStart source # cs) = source # scheduled cs"
| "scheduled (c # cs) = scheduled cs"

text \<open>A message whose only content is an audio payload, received at a clock reading.\<close>

definition audio_only :: "string \<Rightarrow> server_message" where
  "audio_only audio =
     \<lparr>inputTranscription = None, outputTranscription = None, turnComplete = False,
      audioData = Some audio, interrupted = False\<rparr>"

text \<open>
  An inbound message as the handler receives it: the \<open>Date.now()\<close> reads available to
  it, the output clock's reading and the message.
\<close>

definition inbound :: "date_reads \<times> real \<times> server_message \<Rightarrow> event" where
  "inbound c = Message (fst c) (fst (snd c)) (snd (snd c))"

section \<open>Concrete messages\<close>

definition no_reads :: date_reads where
  "no_reads = \<lparr>now_uid = 0, now_uts = 0, now_mid = 0, now_mts = 0\<rparr>"

definition reads_1000 :: date_reads where
  "reads_1000 = \<lparr>now_uid = 1000, now_uts = 1000, now_mid = 1000, now_mts = 1000\<rparr>"

text \<open>A fragment of the user's speech together with a payload that is not base64.\<close>

definition fragment_and_bad_audio :: server_message where
  "fragment_and_bad_audio =
     \<lparr>inputTranscription = Some ''Hi'', outputTranscription = None, turnComplete = False,
      audioData = Some ''!!!!'', interrupted = False\<rparr>"

text \<open>A fragment of the user's speech together with a payload of three samples.\<close>

definition fragment_and_audio :: server_message where
  "fragment_and_audio =
     \<lparr>inputTranscription = Some ''Hi'', outputTranscription = None, turnComplete = False,
      audioData = Some ''AAAAAAAA'', interrupted = False\<rparr>"


text \<open>The user's turn, finished by a message that carries the last fragment.\<close>

definition user_turn :: "string \<Rightarrow> server_message" where
  "user_turn fragment =
     \<lparr>inputTranscription = Some fragment, outputTranscription = None, turnComplete = True,
      audioData = None, interrupted = False\<rparr>"

section \<open>The handler up to the audio block\<close>

text \<open>
  The state when \<open>onmessage\<close> reaches the audio block: lines 75-92 have run.
\<close>

definition before_audio :: "date_reads \<Rightarrow> server_message \<Rightarrow> app \<Rightarrow> app" where
  "before_audio d m s =
     (if turnComplete m then finalizeTurn d (appendTranscription m s)
      else appendTranscription m s)"

text \<open>The started session after the stop button: \<open>handleStopSession\<close> has run.\<close>

definition stopped :: app where
  "stopped = handleStopSession started"

section \<open>Kinds of events\<close>

text \<open>A message with the \<open>interrupted\<close> flag; the end of a source's playback.\<close>

fun interrupts :: "event \<Rightarrow> bool" where
  "interrupts (Message d currentTime m) = interrupted m"
| "interrupts (Ended source) = False"

fun is_ended :: "event \<Rightarrow> bool" where
  "is_ended (Message d currentTime m) = False"
| "is_ended (Ended source) = True"

text \<open>The \<open>Date.now()\<close> reads of the messages that finalise a turn, in order.\<close>

fun finalising_reads :: "event list \<Rightarrow> date_reads list" where
  "finalising_reads [] = []"
| "finalising_reads (Message d currentTime m # es) =
     (if turnComplete m then d # finalising_reads es else finalising_reads es)"
| "finalising_reads (Ended source # es) = finalising_reads es"

text \<open>The calls by which \<open>handleStopSession\<close> closes what the two refs hold.\<close>

definition closes :: "app \<Rightarrow> call list" where
  "closes s =
     (case sessionRef s of None \<Rightarrow> [] | Some session \<Rightarrow> [SessionClose session])
     @ (case audioContextsRef s of
          None \<Rightarrow> []
        | Some (input, output) \<Rightarrow> [ContextClose input, ContextClose output])"

text \<open>
  A start request on a fresh component for which the microphone is refused, and one for
  which the connection fails.
\<close>

definition microphone_refused :: start_env where
  "microphone_refused =
     \<lparr>apiKey = Some ''key'', inputCtx = 2, outputCtx = 3,
      userMedia = Inl DeviceAcquisitionFailure, connected = Inr 1\<rparr>"

definition connection_failed :: start_env where
  "connection_failed =
     \<lparr>apiKey = Some ''key'', inputCtx = 2, outputCtx = 3,
      userMedia = Inr 4, connected = Inl StreamError\<rparr>"

section \<open>Decimal text is injective\<close>

lemma of_char_digit: "d < 10 \<Longrightarrow> of_char (digit_char d) = (48 + d :: nat)"
proof -
  assume "d < 10"
  then have "d \<in> {0, 1, 2, 3, 4, 5, 6, 7, 8, 9}" by auto
  then show ?thesis by (auto simp: digit_char_def)
qed

lemma digit_char_inj: "a < 10 \<Longrightarrow> b < 10 \<Longrightarrow> digit_char a = digit_char b \<Longrightarrow> a = b"
proof -
  assume a: "a < 10" and b: "b < 10" and e: "digit_char a = digit_char b"
  have "(48 + a :: nat) = of_char (digit_char a)" using of_char_digit[OF a] by (rule sym)
  also have "\<dots> = of_char (digit_char b)" by (simp only: e)
  also have "\<dots> = 48 + b" by (rule of_char_digit[OF b])
  finally show "a = b" by arith
qed

lemma digit_not_minus: "d < 10 \<Longrightarrow> digit_char d \<noteq> CHR ''-''"
proof
  assume d: "d < 10" and e: "digit_char d = CHR ''-''"
  have "(48 + d :: nat) = of_char (digit_char d)" using of_char_digit[OF d] by (rule sym)
  also have "\<dots> = of_char (CHR ''-'')" by (simp only: e)
  also have "\<dots> = (45 :: nat)" by simp
  finally show False by arith
qed

lemma digits_nonempty: "digits n \<noteq> []"
  by (subst digits.simps) simp

lemma digits_inj: "digits a = digits b \<Longrightarrow> a = b"
proof (induction a arbitrary: b rule: digits.induct)
  case (1 n)
  show ?case
  proof (cases "n < 10")
    case True
    then have dn: "digits n = [digit_char n]" by (subst digits.simps) simp
    show ?thesis
    proof (cases "b < 10")
      case True
      then have "digits b = [digit_char b]" by (subst digits.simps) simp
      with dn "1.prems" have "digit_char n = digit_char b" by simp
      with \<open>n < 10\<close> True show ?thesis by (rule digit_char_inj)
    next
      case False
      then have "digits b = digits (b div 10) @ [digit_char (b mod 10)]"
        by (subst digits.simps) simp
      with dn "1.prems" have "digits (b div 10) = []" by simp
      with digits_nonempty show ?thesis by blast
    qed
  next
    case False
    then have dn: "digits n = digits (n div 10) @ [digit_char (n mod 10)]"
      by (subst digits.simps) simp
    show ?thesis
    proof (cases "b < 10")
      case True
      then have "digits b = [digit_char b]" by (subst digits.simps) simp
      with dn "1.prems" have "digits (n div 10) = []" by simp
      with digits_nonempty show ?thesis by blast
    next
      case bf: False
      then have "digits b = digits (b div 10) @ [digit_char (b mod 10)]"
        by (subst digits.simps) simp
      with dn "1.prems" have e: "digits (n div 10) = digits (b div 10)"
        and d: "digit_char (n mod 10) = digit_char (b mod 10)" by simp_all
      from "1.IH"[OF False e] have q: "n div 10 = b div 10" .
      have r: "n mod 10 = b mod 10" by (rule digit_char_inj[OF _ _ d]) simp_all
      have "n = 10 * (n div 10) + n mod 10" by simp
      also have "\<dots> = 10 * (b div 10) + b mod 10" using q r by simp
      finally show ?thesis by simp
    qed
  qed
qed

lemma digits_hd_not_minus: "hd (digits n) \<noteq> CHR ''-''"
proof (induction n rule: digits.induct)
  case (1 n)
  show ?case
  proof (cases "n < 10")
    case True
    then have "digits n = [digit_char n]" by (subst digits.simps) simp
    with True digit_not_minus show ?thesis by simp
  next
    case False
    then have "digits n = digits (n div 10) @ [digit_char (n mod 10)]"
      by (subst digits.simps) simp
    with "1.IH"[OF False] digits_nonempty[of "n div 10"] show ?thesis by simp
  qed
qed

lemma number_text_inj: "number_text a = number_text b \<Longrightarrow> a = b"
proof -
  assume e: "number_text a = number_text b"
  have neg: "digits m \<noteq> CHR ''-'' # xs" for m xs
    using digits_hd_not_minus[of m] by (cases "digits m") auto
  show ?thesis
  proof (cases "a < 0")
    case True
    show ?thesis
    proof (cases "b < 0")
      case bt: True
      with True e have "digits (nat (- a)) = digits (nat (- b))" by (simp add: number_text_def)
      then have "nat (- a) = nat (- b)" by (rule digits_inj)
      with True bt show ?thesis by simp
    next
      case False
      with True e neg[of "nat b"] show ?thesis by (simp add: number_text_def) metis
    qed
  next
    case False
    show ?thesis
    proof (cases "b < 0")
      case True
      with False e neg[of "nat a"] show ?thesis by (simp add: number_text_def)
    next
      case bf: False
      with False e have "digits (nat a) = digits (nat b)" by (simp add: number_text_def)
      then have "nat a = nat b" by (rule digits_inj)
      with False bf show ?thesis by simp
    qed
  qed
qed

section \<open>Interruption\<close>

text \<open>
  C2. \<open>stopAudio\<close> calls \<open>stop\<close> on every source of the active set, once each and in
  insertion order; afterwards the active set is empty and the cursor is zero. A second
  call changes nothing. On an empty active set it makes no call and only sets the cursor
  to zero.
\<close>

theorem stopAudio_interrupt:
  "calls (stopAudio s) = calls s @ map SourceStop (sourcesRef s)
   \<and> (\<forall>source \<in> set (sourcesRef s). SourceStop source \<in> set (calls (stopAudio s)))
   \<and> sourcesRef (stopAudio s) = []
   \<and> nextStartTimeRef (stopAudio s) = 0
   \<and> stopAudio (stopAudio s) = stopAudio s
   \<and> (sourcesRef s = [] \<longrightarrow> stopAudio s = s\<lparr>nextStartTimeRef := 0\<rparr>)"
  by (simp add: stopAudio_def)

theorem stopAudio_interrupt_witness:
  "sourcesRef playing = [first_source, second_source]
   \<and> SourceStop first_source \<in> set (calls (stopAudio playing))
   \<and> SourceStop second_source \<in> set (calls (stopAudio playing))
   \<and> sourcesRef (stopAudio playing) = []
   \<and> nextStartTimeRef (stopAudio playing) = 0
   \<and> stopAudio (stopAudio playing) = stopAudio playing
   \<and> sourcesRef initial = []
   \<and> stopAudio initial = initial\<lparr>nextStartTimeRef := 0\<rparr>"
proof -
  have src: "sourcesRef playing = [first_source, second_source]"
    by (simp add: playing_def)
  have emp: "sourcesRef initial = []"
    by (simp add: initial_def)
  from stopAudio_interrupt [of playing] stopAudio_interrupt [of initial] src emp
  show ?thesis by simp
qed

section \<open>Finalising a turn\<close>

lemma finalizeTurn_eq:
  "finalizeTurn d s =
     s\<lparr>messages := messages s
          @ (if trim (user (transcriptionBufferRef s)) \<noteq> []
             then [\<lparr>id_msg = ''u-'' @ number_text (now_uid d), role = User,
                    text_msg = trim (user (transcriptionBufferRef s)), timestamp = now_uts d\<rparr>]
             else [])
          @ (if trim (model (transcriptionBufferRef s)) \<noteq> []
             then [\<lparr>id_msg = ''m-'' @ number_text (now_mid d), role = Model,
                    text_msg = trim (model (transcriptionBufferRef s)), timestamp = now_mts d\<rparr>]
             else []),
       transcriptionBufferRef := \<lparr>user = [], model = []\<rparr>\<rparr>"
  by (simp add: finalizeTurn_def newMessages_def Let_def)

lemma trim_Nil: "trim [] = []"
  by (simp add: trim_def)

lemma onmessage_turnComplete_only:
  "onmessage dec d t
        \<lparr>inputTranscription = None, outputTranscription = None, turnComplete = True,
         audioData = None, interrupted = False\<rparr> s
      = (Returned, finalizeTurn d s)"
  by (simp add: onmessage_def appendTranscription_def Let_def)

text \<open>
  C3. The \<open>turnComplete\<close> branch trims both accumulators, appends one message for each
  that is not empty after trimming, the user's before the model's, and empties both
  accumulators whatever they held; nothing else of the state changes. With both
  accumulators empty the log is unchanged. A message carrying only \<open>turnComplete\<close>
  does exactly this.
\<close>

theorem finalizeTurn_appends:
  "finalizeTurn d s =
     s\<lparr>messages := messages s
          @ (if trim (user (transcriptionBufferRef s)) \<noteq> []
             then [\<lparr>id_msg = ''u-'' @ number_text (now_uid d), role = User,
                    text_msg = trim (user (transcriptionBufferRef s)), timestamp = now_uts d\<rparr>]
             else [])
          @ (if trim (model (transcriptionBufferRef s)) \<noteq> []
             then [\<lparr>id_msg = ''m-'' @ number_text (now_mid d), role = Model,
                    text_msg = trim (model (transcriptionBufferRef s)), timestamp = now_mts d\<rparr>]
             else []),
       transcriptionBufferRef := \<lparr>user = [], model = []\<rparr>\<rparr>
   \<and> transcriptionBufferRef (finalizeTurn d s) = \<lparr>user = [], model = []\<rparr>
   \<and> length (messages (finalizeTurn d s)) =
       length (messages s)
       + (if trim (user (transcriptionBufferRef s)) \<noteq> [] then 1 else 0)
       + (if trim (model (transcriptionBufferRef s)) \<noteq> [] then 1 else 0)
   \<and> (user (transcriptionBufferRef s) = [] \<and> model (transcriptionBufferRef s) = []
        \<longrightarrow> messages (finalizeTurn d s) = messages s)
   \<and> onmessage dec d t
        \<lparr>inputTranscription = None, outputTranscription = None, turnComplete = True,
         audioData = None, interrupted = False\<rparr> s
      = (Returned, finalizeTurn d s)"
proof (intro conjI)
  show "transcriptionBufferRef (finalizeTurn d s) = \<lparr>user = [], model = []\<rparr>"
    by (simp add: finalizeTurn_eq)
  show "length (messages (finalizeTurn d s)) =
       length (messages s)
       + (if trim (user (transcriptionBufferRef s)) \<noteq> [] then 1 else 0)
       + (if trim (model (transcriptionBufferRef s)) \<noteq> [] then 1 else 0)"
    by (simp add: finalizeTurn_eq)
  show "user (transcriptionBufferRef s) = [] \<and> model (transcriptionBufferRef s) = []
        \<longrightarrow> messages (finalizeTurn d s) = messages s"
    by (simp add: finalizeTurn_eq trim_Nil)
qed (rule finalizeTurn_eq, rule onmessage_turnComplete_only)

lemma trim_examples: "trim ''Hi'' = ''Hi''" "trim '' Hello '' = ''Hello''"
  by (simp_all add: trim_def is_space_def)

theorem finalizeTurn_appends_witness:
  "messages (finalizeTurn \<lparr>now_uid = 1000, now_uts = 1000, now_mid = 1001, now_mts = 1001\<rparr> hi_hello)
     = [\<lparr>id_msg = ''u-1000'', role = User, text_msg = ''Hi'', timestamp = 1000\<rparr>,
        \<lparr>id_msg = ''m-1001'', role = Model, text_msg = ''Hello'', timestamp = 1001\<rparr>]
   \<and> transcriptionBufferRef
        (finalizeTurn \<lparr>now_uid = 1000, now_uts = 1000, now_mid = 1001, now_mts = 1001\<rparr> hi_hello)
      = \<lparr>user = [], model = []\<rparr>
   \<and> user (transcriptionBufferRef started) = [] \<and> model (transcriptionBufferRef started) = []
   \<and> messages (finalizeTurn \<lparr>now_uid = 1000, now_uts = 1000, now_mid = 1001, now_mts = 1001\<rparr> started)
      = messages started"
proof -
  let ?d = "\<lparr>now_uid = 1000, now_uts = 1000, now_mid = 1001, now_mts = 1001\<rparr>"
  have b: "transcriptionBufferRef hi_hello = \<lparr>user = ''Hi'', model = '' Hello ''\<rparr>"
    "messages hi_hello = []"
    by (simp_all add: hi_hello_def started_def initial_def)
  have e: "user (transcriptionBufferRef started) = []" "model (transcriptionBufferRef started) = []"
    by (simp_all add: started_def initial_def)
  have n: "number_text 1000 = ''1000''" "number_text 1001 = ''1001''"
    by (simp_all add: number_text_def digits.simps digit_char_def)
  have 1: "messages (finalizeTurn ?d hi_hello)
     = [\<lparr>id_msg = ''u-1000'', role = User, text_msg = ''Hi'', timestamp = 1000\<rparr>,
        \<lparr>id_msg = ''m-1001'', role = Model, text_msg = ''Hello'', timestamp = 1001\<rparr>]"
    using finalizeTurn_appends [of ?d hi_hello] by (simp add: b n trim_examples)
  have 2: "transcriptionBufferRef (finalizeTurn ?d hi_hello) = \<lparr>user = [], model = []\<rparr>"
    using finalizeTurn_appends [of ?d hi_hello] by simp
  have 3: "messages (finalizeTurn ?d started) = messages started"
    using finalizeTurn_appends [of ?d started] e by (simp add: trim_Nil)
  from 1 2 3 e show ?thesis by simp
qed

section \<open>The audio block\<close>

lemma scheduled_append: "scheduled (xs @ ys) = scheduled xs @ scheduled ys"
  by (induction xs rule: scheduled.induct) simp_all

lemma onmessage_audio_only:
  "audio \<noteq> [] \<Longrightarrow> audioContextsRef s \<noteq> None \<Longrightarrow>
   onmessage dec d t (audio_only audio) s = enqueue dec t audio s"
  by (simp add: onmessage_def audio_only_def appendTranscription_def Let_def enqueue_def
        split: sum.splits)

lemma enqueue_decoded:
  "dec audio = Inr dur \<Longrightarrow>
   enqueue dec t audio s =
     (Returned,
      s\<lparr>nodesCreated := Suc (nodesCreated s),
        calls := calls s @ [SourceStart \<lparr>node = nodesCreated s, buffer_duration = dur,
                                         startedAt = max (nextStartTimeRef s) t\<rparr>],
        nextStartTimeRef := max (nextStartTimeRef s) t + dur,
        sourcesRef := set_add \<lparr>node = nodesCreated s, buffer_duration = dur,
                                startedAt = max (nextStartTimeRef s) t\<rparr> (sourcesRef s)\<rparr>)"
  by (simp add: enqueue_def Let_def)

lemma enqueue_failed:
  "dec audio = Inl e \<Longrightarrow>
   enqueue dec t audio s = (Raised e, s\<lparr>nextStartTimeRef := max (nextStartTimeRef s) t\<rparr>)"
  by (simp add: enqueue_def Let_def)

section \<open>The message handler, block by block\<close>

lemma appendTranscription_fields:
  "status (appendTranscription m s) = status s"
  "messages (appendTranscription m s) = messages s"
  "sessionRef (appendTranscription m s) = sessionRef s"
  "audioContextsRef (appendTranscription m s) = audioContextsRef s"
  "sourcesRef (appendTranscription m s) = sourcesRef s"
  "nextStartTimeRef (appendTranscription m s) = nextStartTimeRef s"
  "nodesCreated (appendTranscription m s) = nodesCreated s"
  "calls (appendTranscription m s) = calls s"
  by (simp_all add: appendTranscription_def Let_def)

lemma appendTranscription_buffer:
  "user (transcriptionBufferRef (appendTranscription m s)) =
     user (transcriptionBufferRef s) @ (case inputTranscription m of None \<Rightarrow> [] | Some t \<Rightarrow> t)"
  "model (transcriptionBufferRef (appendTranscription m s)) =
     model (transcriptionBufferRef s) @ (case outputTranscription m of None \<Rightarrow> [] | Some t \<Rightarrow> t)"
  by (simp_all add: appendTranscription_def Let_def split: option.splits)

lemma finalizeTurn_fields:
  "status (finalizeTurn d s) = status s"
  "sessionRef (finalizeTurn d s) = sessionRef s"
  "audioContextsRef (finalizeTurn d s) = audioContextsRef s"
  "sourcesRef (finalizeTurn d s) = sourcesRef s"
  "nextStartTimeRef (finalizeTurn d s) = nextStartTimeRef s"
  "nodesCreated (finalizeTurn d s) = nodesCreated s"
  "calls (finalizeTurn d s) = calls s"
  by (simp_all add: finalizeTurn_eq)

lemma before_audio_fields:
  "status (before_audio d m s) = status s"
  "sessionRef (before_audio d m s) = sessionRef s"
  "audioContextsRef (before_audio d m s) = audioContextsRef s"
  "sourcesRef (before_audio d m s) = sourcesRef s"
  "nextStartTimeRef (before_audio d m s) = nextStartTimeRef s"
  "nodesCreated (before_audio d m s) = nodesCreated s"
  "calls (before_audio d m s) = calls s"
  by (simp_all add: before_audio_def finalizeTurn_fields appendTranscription_fields)

lemma onmessage_unfold:
  "onmessage dec d t m s =
     (let r = (case audioData m of
                 None \<Rightarrow> (Returned, before_audio d m s)
               | Some audio \<Rightarrow>
                   if audio \<noteq> [] \<and> audioContextsRef s \<noteq> None
                   then enqueue dec t audio (before_audio d m s)
                   else (Returned, before_audio d m s))
      in case fst r of
           Raised e \<Rightarrow> r
         | Returned \<Rightarrow> (Returned, if interrupted m then stopAudio (snd r) else snd r))"
  by (cases "audioData m"; cases "turnComplete m")
     (simp_all add: onmessage_def before_audio_def Let_def finalizeTurn_fields
        appendTranscription_fields cong del: outcome.case_cong_weak)

lemma onmessage_raises:
  "audioData m = Some a \<Longrightarrow> a \<noteq> [] \<Longrightarrow> audioContextsRef s \<noteq> None \<Longrightarrow> dec a = Inl e \<Longrightarrow>
   onmessage dec d t m s =
     (Raised e, (before_audio d m s)\<lparr>nextStartTimeRef := max (nextStartTimeRef s) t\<rparr>)"
  by (simp add: onmessage_unfold Let_def enqueue_failed[of dec a e] before_audio_fields)

lemma onmessage_decoded:
  "audioData m = Some a \<Longrightarrow> a \<noteq> [] \<Longrightarrow> audioContextsRef s \<noteq> None \<Longrightarrow> dec a = Inr dur \<Longrightarrow>
   onmessage dec d t m s =
     (Returned, if interrupted m then stopAudio (snd (enqueue dec t a (before_audio d m s)))
                else snd (enqueue dec t a (before_audio d m s)))"
  by (simp add: onmessage_unfold Let_def enqueue_decoded[of dec a dur])

lemma onmessage_no_audio:
  "audioData m = None \<or> audioData m = Some [] \<or> audioContextsRef s = None \<Longrightarrow>
   onmessage dec d t m s =
     (Returned, if interrupted m then stopAudio (before_audio d m s) else before_audio d m s)"
  by (auto simp add: onmessage_unfold Let_def split: option.splits)

lemma before_audio_messages:
  "messages (before_audio d m s) =
     (if turnComplete m
      then messages s
        @ (if trim (user (transcriptionBufferRef s)
                    @ (case inputTranscription m of None \<Rightarrow> [] | Some t \<Rightarrow> t)) \<noteq> []
           then [\<lparr>id_msg = ''u-'' @ number_text (now_uid d), role = User,
                  text_msg = trim (user (transcriptionBufferRef s)
                    @ (case inputTranscription m of None \<Rightarrow> [] | Some t \<Rightarrow> t)),
                  timestamp = now_uts d\<rparr>]
           else [])
        @ (if trim (model (transcriptionBufferRef s)
                    @ (case outputTranscription m of None \<Rightarrow> [] | Some t \<Rightarrow> t)) \<noteq> []
           then [\<lparr>id_msg = ''m-'' @ number_text (now_mid d), role = Model,
                  text_msg = trim (model (transcriptionBufferRef s)
                    @ (case outputTranscription m of None \<Rightarrow> [] | Some t \<Rightarrow> t)),
                  timestamp = now_mts d\<rparr>]
           else [])
      else messages s)"
  by (simp add: before_audio_def finalizeTurn_eq appendTranscription_fields appendTranscription_buffer)

lemma before_audio_buffer:
  "transcriptionBufferRef (before_audio d m s) =
     (if turnComplete m then \<lparr>user = [], model = []\<rparr>
      else \<lparr>user = user (transcriptionBufferRef s)
                    @ (case inputTranscription m of None \<Rightarrow> [] | Some t \<Rightarrow> t),
            model = model (transcriptionBufferRef s)
                    @ (case outputTranscription m of None \<Rightarrow> [] | Some t \<Rightarrow> t)\<rparr>)"
  by (simp add: before_audio_def finalizeTurn_eq appendTranscription_def Let_def split: option.splits)

lemma onmessage_messages:
  "messages (snd (onmessage dec d t m s)) = messages (before_audio d m s)"
  "transcriptionBufferRef (snd (onmessage dec d t m s)) = transcriptionBufferRef (before_audio d m s)"
  by (simp_all add: onmessage_unfold Let_def enqueue_def stopAudio_def
        split: option.splits sum.splits outcome.splits)

section \<open>Order of the blocks within one message\<close>

text \<open>Evaluations shared by the concrete runs below.\<close>

lemma decodeAudio_examples:
  "decodeAudio ''AAAAAAAA'' = Inr (1 / 8000)"
  "decodeAudio ''!!!!'' = Inl MalformedPayload"
  by (simp_all add: decodeAudio_def decodeFromTransport_def pcmToPlayableBuffer_def base64_char_def)

lemma number_text_1000: "number_text 1000 = ''1000''"
  by (simp add: number_text_def digits.simps digit_char_def)





section \<open>A payload that does not decode\<close>

text \<open>
  A message with a fragment and a malformed payload, handled when the output clock reads
  5 and the cursor is 0: the decoding throws, and the handler has already appended the
  fragment and raised the cursor to the clock.
\<close>

theorem decode_failure_counterexample:
  "decodeAudio ''!!!!'' = Inl MalformedPayload
   \<and> nextStartTimeRef started = 0
   \<and> user (transcriptionBufferRef started) = []
   \<and> fst (onmessage decodeAudio no_reads 5 fragment_and_bad_audio started) = Raised MalformedPayload
   \<and> nextStartTimeRef (snd (onmessage decodeAudio no_reads 5 fragment_and_bad_audio started)) = 5
   \<and> user (transcriptionBufferRef (snd (onmessage decodeAudio no_reads 5 fragment_and_bad_audio started)))
       = ''Hi''"
proof -
  have b: "audioData fragment_and_bad_audio = Some ''!!!!''" "\<not> turnComplete fragment_and_bad_audio"
    "inputTranscription fragment_and_bad_audio = Some ''Hi''"
    by (simp_all add: fragment_and_bad_audio_def)
  have s: "audioContextsRef started \<noteq> None" "nextStartTimeRef started = 0"
    "user (transcriptionBufferRef started) = []"
    by (simp_all add: started_def initial_def)
  have "onmessage decodeAudio no_reads 5 fragment_and_bad_audio started =
     (Raised MalformedPayload,
      (before_audio no_reads fragment_and_bad_audio started)\<lparr>nextStartTimeRef := max (nextStartTimeRef started) 5\<rparr>)"
    using b s decodeAudio_examples
    by (simp add: onmessage_raises[of fragment_and_bad_audio "''!!!!''" started decodeAudio MalformedPayload])
  then show ?thesis
    using b s decodeAudio_examples by (simp add: before_audio_buffer)
qed

text \<open>
  C7, as the code has it. When the decoding of a payload throws, the handler ends there:
  no source is created, the active set, the calls made and the session status are as
  before. The cursor is the maximum of its old value and the output clock, since line 98
  runs before the decoding; it never moves back. The accumulators and the log are as the
  fragments and the \<open>turnComplete\<close> flag of the same message left them. Hence a message
  that carries only the payload changes nothing but the cursor, and nothing at all when
  the clock has not passed the cursor.
\<close>

theorem decode_failure_state:
  assumes "audioData m = Some a" and "a \<noteq> []" and "audioContextsRef s \<noteq> None"
    and "dec a = Inl e"
  shows "fst (onmessage dec d t m s) = Raised e
    \<and> sourcesRef (snd (onmessage dec d t m s)) = sourcesRef s
    \<and> calls (snd (onmessage dec d t m s)) = calls s
    \<and> status (snd (onmessage dec d t m s)) = status s
    \<and> nextStartTimeRef (snd (onmessage dec d t m s)) = max (nextStartTimeRef s) t
    \<and> nextStartTimeRef s \<le> nextStartTimeRef (snd (onmessage dec d t m s))
    \<and> snd (onmessage dec d t m s)
        = (before_audio d m s)\<lparr>nextStartTimeRef := max (nextStartTimeRef s) t\<rparr>
    \<and> (inputTranscription m = None \<and> outputTranscription m = None \<and> \<not> turnComplete m \<longrightarrow>
         snd (onmessage dec d t m s) = s\<lparr>nextStartTimeRef := max (nextStartTimeRef s) t\<rparr>)
    \<and> (inputTranscription m = None \<and> outputTranscription m = None \<and> \<not> turnComplete m
         \<and> t \<le> nextStartTimeRef s \<longrightarrow>
         snd (onmessage dec d t m s) = s)"
proof -
  note eq = onmessage_raises[OF assms(1) assms(2) assms(3), of dec e d t, OF assms(4)]
  have plain: "before_audio d m s = s"
    if "inputTranscription m = None \<and> outputTranscription m = None \<and> \<not> turnComplete m"
    using that by (simp add: before_audio_def appendTranscription_def)
  have same: "s\<lparr>nextStartTimeRef := max (nextStartTimeRef s) t\<rparr> = s" if "t \<le> nextStartTimeRef s"
    using that by (simp add: max_def)
  show ?thesis
    using plain same by (simp add: eq before_audio_fields)
qed

theorem decode_failure_state_witness:
  "audioData (audio_only ''!!!!'') = Some ''!!!!'' \<and> ''!!!!'' \<noteq> []
   \<and> audioContextsRef started \<noteq> None \<and> decodeAudio ''!!!!'' = Inl MalformedPayload
   \<and> onmessage decodeAudio no_reads 5 (audio_only ''!!!!'') started
       = (Raised MalformedPayload, started\<lparr>nextStartTimeRef := 5\<rparr>)
   \<and> onmessage decodeAudio no_reads 0 (audio_only ''!!!!'') started
       = (Raised MalformedPayload, started)"
proof -
  have m: "audioData (audio_only ''!!!!'') = Some ''!!!!''"
    "inputTranscription (audio_only ''!!!!'') = None"
    "outputTranscription (audio_only ''!!!!'') = None"
    "\<not> turnComplete (audio_only ''!!!!'')"
    by (simp_all add: audio_only_def)
  have a: "''!!!!'' \<noteq> []" by simp
  have s: "audioContextsRef started \<noteq> None" "nextStartTimeRef started = 0"
    by (simp_all add: started_def initial_def)
  note at5 = decode_failure_state [where dec = decodeAudio and d = no_reads and t = 5,
      OF m(1) a s(1) decodeAudio_examples(2)]
  note at0 = decode_failure_state [where dec = decodeAudio and d = no_reads and t = 0,
      OF m(1) a s(1) decodeAudio_examples(2)]
  have 5: "onmessage decodeAudio no_reads 5 (audio_only ''!!!!'') started
       = (Raised MalformedPayload, started\<lparr>nextStartTimeRef := 5\<rparr>)"
  proof -
    from at5 have f: "fst (onmessage decodeAudio no_reads 5 (audio_only ''!!!!'') started)
        = Raised MalformedPayload" by blast
    from at5 m have "snd (onmessage decodeAudio no_reads 5 (audio_only ''!!!!'') started)
        = started\<lparr>nextStartTimeRef := max (nextStartTimeRef started) 5\<rparr>" by blast
    with f show ?thesis by (simp add: prod_eq_iff s(2))
  qed
  have 0: "onmessage decodeAudio no_reads 0 (audio_only ''!!!!'') started
       = (Raised MalformedPayload, started)"
  proof -
    from at0 have f: "fst (onmessage decodeAudio no_reads 0 (audio_only ''!!!!'') started)
        = Raised MalformedPayload" by blast
    have "(0::real) \<le> nextStartTimeRef started" by (simp add: s(2))
    with at0 m have "snd (onmessage decodeAudio no_reads 0 (audio_only ''!!!!'') started)
        = started" by blast
    with f show ?thesis by (simp add: prod_eq_iff)
  qed
  from m(1) a s(1) decodeAudio_examples(2) 5 0 show ?thesis by simp
qed

section \<open>Messages outside the active status\<close>

text \<open>
  After \<open>handleStopSession\<close> the status is \<open>IDLE\<close>; a message that still arrives is
  handled like any other: its fragment is appended and its payload is scheduled.
\<close>

theorem inactive_message_counterexample:
  "status stopped = IDLE
   \<and> transcriptionBufferRef stopped = \<lparr>user = [], model = []\<rparr>
   \<and> sourcesRef stopped = [] \<and> nextStartTimeRef stopped = 0
   \<and> transcriptionBufferRef (snd (onmessage decodeAudio no_reads 0 fragment_and_audio stopped))
       = \<lparr>user = ''Hi'', model = []\<rparr>
   \<and> sourcesRef (snd (onmessage decodeAudio no_reads 0 fragment_and_audio stopped))
       = [\<lparr>node = 0, buffer_duration = 1 / 8000, startedAt = 0\<rparr>]
   \<and> nextStartTimeRef (snd (onmessage decodeAudio no_reads 0 fragment_and_audio stopped)) = 1 / 8000"
proof -
  have s: "stopped = started\<lparr>status := IDLE,
      calls := [SessionClose 1, ContextClose 2, ContextClose 3]\<rparr>"
    by (simp add: stopped_def handleStopSession_def stopAudio_def started_def initial_def)
  have m: "audioData fragment_and_audio = Some ''AAAAAAAA''" "\<not> turnComplete fragment_and_audio"
    "inputTranscription fragment_and_audio = Some ''Hi''" "\<not> interrupted fragment_and_audio"
    "outputTranscription fragment_and_audio = None"
    by (simp_all add: fragment_and_audio_def)
  have c: "audioContextsRef stopped \<noteq> None" "sourcesRef stopped = []" "nextStartTimeRef stopped = 0"
    "nodesCreated stopped = 0" "status stopped = IDLE"
    "transcriptionBufferRef stopped = \<lparr>user = [], model = []\<rparr>"
    by (simp_all add: s started_def initial_def)
  have "onmessage decodeAudio no_reads 0 fragment_and_audio stopped =
      (Returned, snd (enqueue decodeAudio 0 ''AAAAAAAA'' (before_audio no_reads fragment_and_audio stopped)))"
    using m c decodeAudio_examples
    by (simp add: onmessage_decoded[of fragment_and_audio "''AAAAAAAA''" stopped decodeAudio "1 / 8000"])
  then show ?thesis
    using m c decodeAudio_examples
    by (simp add: enqueue_decoded[of decodeAudio "''AAAAAAAA''" "1 / 8000"]
          before_audio_fields before_audio_buffer set_add_def)
qed

lemma stopAudio_status: "stopAudio (s\<lparr>status := st\<rparr>) = (stopAudio s)\<lparr>status := st\<rparr>"
  by (simp add: stopAudio_def)

lemma before_audio_status:
  "before_audio d m (s\<lparr>status := st\<rparr>) = (before_audio d m s)\<lparr>status := st\<rparr>"
  by (simp add: before_audio_def finalizeTurn_def appendTranscription_def Let_def)

lemma enqueue_status:
  "enqueue dec t a (s\<lparr>status := st\<rparr>) =
     (fst (enqueue dec t a s), (snd (enqueue dec t a s))\<lparr>status := st\<rparr>)"
  by (simp add: enqueue_def Let_def split: sum.splits)

lemma enqueue_keeps_status: "status (snd (enqueue dec t a s)) = status s"
  by (simp add: enqueue_def Let_def split: sum.splits)

text \<open>
  C8, as the code has it. \<open>onmessage\<close> does not read the session status: a message is
  handled in the same way whatever the status is, and the handler leaves the status as
  it found it.
\<close>

theorem onmessage_ignores_status:
  "onmessage dec d t m (s\<lparr>status := st\<rparr>) =
     (fst (onmessage dec d t m s), (snd (onmessage dec d t m s))\<lparr>status := st\<rparr>)
   \<and> status (snd (onmessage dec d t m s)) = status s"
proof
  show "onmessage dec d t m (s\<lparr>status := st\<rparr>) =
     (fst (onmessage dec d t m s), (snd (onmessage dec d t m s))\<lparr>status := st\<rparr>)"
    by (cases "audioData m"; cases "fst (enqueue dec t (the (audioData m)) (before_audio d m s))")
       (simp_all add: onmessage_unfold Let_def before_audio_status enqueue_status stopAudio_status)
  show "status (snd (onmessage dec d t m s)) = status s"
    by (cases "audioData m"; cases "fst (enqueue dec t (the (audioData m)) (before_audio d m s))")
       (simp_all add: onmessage_unfold Let_def before_audio_fields enqueue_keeps_status stopAudio_def)
qed

section \<open>The active set\<close>

text \<open>
  A chunk of 1/8000 s is started at 0; when its playback has ended the source is still
  in the active set.
\<close>

theorem completion_counterexample:
  "sourcesRef (run decodeAudio
      [Message no_reads 0 (audio_only ''AAAAAAAA''),
       Ended \<lparr>node = 0, buffer_duration = 1 / 8000, startedAt = 0\<rparr>] started)
   = [\<lparr>node = 0, buffer_duration = 1 / 8000, startedAt = 0\<rparr>]"
proof -
  have s: "audioContextsRef started \<noteq> None" "sourcesRef started = []" "nodesCreated started = 0"
    "nextStartTimeRef started = 0"
    by (simp_all add: started_def initial_def)
  have "onmessage decodeAudio no_reads 0 (audio_only ''AAAAAAAA'') started
      = enqueue decodeAudio 0 ''AAAAAAAA'' started"
    using s by (simp add: onmessage_audio_only)
  then show ?thesis
    using s
    by (simp add: onended_def enqueue_decoded[of decodeAudio "''AAAAAAAA''" "1 / 8000"]
          decodeAudio_examples set_add_def)
qed

lemma onmessage_keeps_sources:
  assumes "\<not> interrupted m"
  shows "\<exists>ys. sourcesRef (snd (onmessage dec d t m s)) = sourcesRef s @ ys"
proof (cases "audioData m = None \<or> audioData m = Some [] \<or> audioContextsRef s = None")
  case True
  then show ?thesis
    using assms by (simp add: onmessage_no_audio before_audio_fields)
next
  case False
  then obtain a where a: "audioData m = Some a" "a \<noteq> []" and ctx: "audioContextsRef s \<noteq> None"
    by auto
  show ?thesis
  proof (cases "dec a")
    case (Inl e)
    show ?thesis
      by (simp add: onmessage_raises[OF a ctx, of dec e, OF Inl] before_audio_fields)
  next
    case (Inr dur)
    show ?thesis
      using assms
      by (simp add: onmessage_decoded[OF a ctx, of dec dur, OF Inr]
            enqueue_decoded[of dec a dur, OF Inr] before_audio_fields set_add_def)
  qed
qed

lemma run_keeps_sources:
  "\<forall>e \<in> set es. \<not> interrupts e \<Longrightarrow> \<exists>ys. sourcesRef (run dec es s) = sourcesRef s @ ys"
proof (induction es arbitrary: s)
  case Nil
  then show ?case by simp
next
  case (Cons e es)
  then have rest: "\<forall>e \<in> set es. \<not> interrupts e" by simp
  show ?case
  proof (cases e)
    case (Message d t m)
    with Cons.prems have "\<not> interrupted m" by simp
    from onmessage_keeps_sources[OF this, of dec d t s] obtain ys where
      ys: "sourcesRef (snd (onmessage dec d t m s)) = sourcesRef s @ ys" by blast
    from Cons.IH[OF rest, of "snd (onmessage dec d t m s)"] obtain zs where
      "sourcesRef (run dec es (snd (onmessage dec d t m s)))
        = sourcesRef (snd (onmessage dec d t m s)) @ zs" by blast
    with ys Message show ?thesis by simp
  next
    case (Ended source)
    with Cons.IH[OF rest, of s] show ?thesis by (simp add: onended_def)
  qed
qed

lemma run_ended_only: "\<forall>e \<in> set es. is_ended e \<Longrightarrow> run dec es s = s"
proof (induction es)
  case Nil
  then show ?case by simp
next
  case (Cons e es)
  then show ?case by (cases e) (simp_all add: onended_def)
qed

text \<open>
  C4, as the code has it. No completion callback is registered, so the end of a source's
  playback leaves the state as it is: a source stays in the active set, finished or not,
  through every run of events without an \<open>interrupted\<close> message. The active set is empty
  right after \<open>stopAudio\<close>, and completions that arrive afterwards do not add a source
  again.
\<close>

theorem active_set_until_interrupt:
  "((\<forall>e \<in> set es. \<not> interrupts e) \<longrightarrow>
      (\<exists>ys. sourcesRef (run dec es s) = sourcesRef s @ ys))
   \<and> ((\<forall>e \<in> set es. is_ended e) \<longrightarrow>
        run dec es (stopAudio s) = stopAudio s \<and> sourcesRef (run dec es (stopAudio s)) = [])
   \<and> run dec [Ended source] s = s"
proof (intro conjI impI)
  assume "\<forall>e \<in> set es. \<not> interrupts e"
  then show "\<exists>ys. sourcesRef (run dec es s) = sourcesRef s @ ys"
    by (rule run_keeps_sources)
next
  assume e: "\<forall>e \<in> set es. is_ended e"
  then show "run dec es (stopAudio s) = stopAudio s"
    by (rule run_ended_only)
  then show "sourcesRef (run dec es (stopAudio s)) = []"
    by (simp add: stopAudio_def)
next
  show "run dec [Ended source] s = s"
    by (simp add: onended_def)
qed

theorem active_set_until_interrupt_witness:
  "\<not> interrupts (Ended first_source) \<and> \<not> interrupts (Message no_reads 3 (audio_only ''AAAAAAAA''))
   \<and> sourcesRef (run decodeAudio
        [Ended first_source, Message no_reads 3 (audio_only ''AAAAAAAA'')] playing)
      = sourcesRef playing @ [\<lparr>node = 2, buffer_duration = 1 / 8000, startedAt = 3\<rparr>]
   \<and> is_ended (Ended first_source) \<and> is_ended (Ended second_source)
   \<and> sourcesRef (run decodeAudio [Ended first_source, Ended second_source] (stopAudio playing)) = []"
proof -
  let ?es = "[Ended first_source, Message no_reads 3 (audio_only ''AAAAAAAA'')]"
  have e: "\<forall>e \<in> set [Ended first_source, Ended second_source]. is_ended e"
    by simp
  have p: "audioContextsRef playing \<noteq> None" "nodesCreated playing = 2"
    "nextStartTimeRef playing = 2"
    by (simp_all add: playing_def started_def initial_def)
  have "sourcesRef (run decodeAudio ?es playing)
      = set_add \<lparr>node = 2, buffer_duration = 1 / 8000, startedAt = 3\<rparr> (sourcesRef playing)"
    using p
    by (simp add: onended_def onmessage_audio_only
          enqueue_decoded[of decodeAudio "''AAAAAAAA''" "1 / 8000"] decodeAudio_examples)
  also have "\<dots> = sourcesRef playing @ [\<lparr>node = 2, buffer_duration = 1 / 8000, startedAt = 3\<rparr>]"
    by (simp add: set_add_def playing_def first_source_def second_source_def)
  finally have 1: "sourcesRef (run decodeAudio ?es playing)
      = sourcesRef playing @ [\<lparr>node = 2, buffer_duration = 1 / 8000, startedAt = 3\<rparr>]" .
  from active_set_until_interrupt [of "[Ended first_source, Ended second_source]" decodeAudio playing] e
  have 2: "sourcesRef (run decodeAudio [Ended first_source, Ended second_source] (stopAudio playing)) = []"
    by blast
  from 1 2 show ?thesis by (simp add: audio_only_def)
qed

section \<open>Leaving a session\<close>

text \<open>
  C5. The claim asks that every transition to \<open>ERROR\<close> releases the stream handle, the
  capture source and the active set. Evaluated on an active session with two scheduled
  sources, \<open>onerror\<close> changes the status and nothing else: the session handle and the
  audio contexts stay in their refs unclosed, both sources stay in the active set, and no
  call is made. A start request that fails after the audio contexts were created leaves
  them in the ref, unclosed, and only alerts. \<open>handleStopSession\<close> on the same session
  does close the handle and the contexts and stops the sources.
\<close>

theorem error_releases_nothing:
  "status playing = ACTIVE
   \<and> onerror playing = playing\<lparr>status := ERROR\<rparr>
   \<and> sessionRef (onerror playing) = Some 1
   \<and> audioContextsRef (onerror playing) = Some (2, 3)
   \<and> sourcesRef (onerror playing) = [first_source, second_source]
   \<and> calls (onerror playing) = calls playing
   \<and> handleStartSession microphone_refused initial =
       initial\<lparr>status := ERROR, audioContextsRef := Some (2, 3), calls := [Alert]\<rparr>
   \<and> handleStartSession connection_failed initial =
       initial\<lparr>status := ERROR, audioContextsRef := Some (2, 3), calls := [Alert]\<rparr>
   \<and> calls (handleStopSession playing) =
       calls playing @ [SessionClose 1, SourceStop first_source, SourceStop second_source,
                        ContextClose 2, ContextClose 3]"
  by (simp add: onerror_def playing_def started_def initial_def handleStartSession_def
        startFailed_def microphone_refused_def connection_failed_def handleStopSession_def
        stopAudio_def Let_def)

text \<open>
  Two stop requests in a row on a started session: the session handle and both audio
  contexts are closed twice.
\<close>

theorem double_stop_counterexample:
  "calls (handleStopSession (handleStopSession started)) =
     [SessionClose 1, ContextClose 2, ContextClose 3,
      SessionClose 1, ContextClose 2, ContextClose 3]
   \<and> status (handleStopSession started) = IDLE
   \<and> handleStopSession (handleStopSession started) \<noteq> handleStopSession started"
proof -
  have 1: "handleStopSession started =
      started\<lparr>status := IDLE, calls := [SessionClose 1, ContextClose 2, ContextClose 3]\<rparr>"
    by (simp add: handleStopSession_def stopAudio_def started_def initial_def)
  have 2: "handleStopSession (handleStopSession started) =
      started\<lparr>status := IDLE, calls := [SessionClose 1, ContextClose 2, ContextClose 3,
                                          SessionClose 1, ContextClose 2, ContextClose 3]\<rparr>"
    unfolding 1 by (simp add: handleStopSession_def stopAudio_def started_def initial_def)
  have 3: "calls (handleStopSession (handleStopSession started))
      \<noteq> calls (handleStopSession started)"
    unfolding 2 unfolding 1 by simp
  then have "handleStopSession (handleStopSession started) \<noteq> handleStopSession started"
    by auto
  with 1 2 show ?thesis by simp
qed

lemma handleStopSession_eq:
  "handleStopSession s =
     s\<lparr>calls := calls s
          @ (case sessionRef s of None \<Rightarrow> [] | Some session \<Rightarrow> [SessionClose session])
          @ map SourceStop (sourcesRef s)
          @ (case audioContextsRef s of
               None \<Rightarrow> []
             | Some (input, output) \<Rightarrow> [ContextClose input, ContextClose output]),
       sourcesRef := [], nextStartTimeRef := 0, status := IDLE\<rparr>"
  by (cases "sessionRef s"; cases "audioContextsRef s")
     (auto simp add: handleStopSession_def stopAudio_def Let_def)

text \<open>
  C6, as the code has it. \<open>handleStopSession\<close> always leaves the status \<open>IDLE\<close>, the
  active set empty and the cursor at zero, and it never clears the two refs. A second
  call therefore changes nothing of the session state but repeats the close calls for
  whatever the refs hold. On a session that was never started it closes nothing and a
  second call is the identity; on a fresh component it is a no-op. The button runs
  \<open>handleStopSession\<close> only in the status \<open>ACTIVE\<close>, and after a stop it is bound to
  \<open>handleStartSession\<close>.
\<close>

theorem handleStopSession_repeated:
  "status (handleStopSession s) = IDLE
   \<and> sourcesRef (handleStopSession s) = []
   \<and> nextStartTimeRef (handleStopSession s) = 0
   \<and> sessionRef (handleStopSession s) = sessionRef s
   \<and> audioContextsRef (handleStopSession s) = audioContextsRef s
   \<and> handleStopSession (handleStopSession s) =
       (handleStopSession s)\<lparr>calls := calls (handleStopSession s) @ closes s\<rparr>
   \<and> (sessionRef s = None \<and> audioContextsRef s = None \<longrightarrow>
        calls (handleStopSession s) = calls s @ map SourceStop (sourcesRef s)
        \<and> handleStopSession (handleStopSession s) = handleStopSession s)
   \<and> handleStopSession initial = initial
   \<and> (onClick st = Some HandleStopSession \<longleftrightarrow> st = ACTIVE)
   \<and> onClick (status (handleStopSession s)) = Some HandleStartSession"
proof (intro conjI impI)
  show "handleStopSession (handleStopSession s) =
       (handleStopSession s)\<lparr>calls := calls (handleStopSession s) @ closes s\<rparr>"
    by (simp add: handleStopSession_eq closes_def)
  show "handleStopSession initial = initial"
    by (simp add: handleStopSession_eq initial_def)
  show "(onClick st = Some HandleStopSession) = (st = ACTIVE)"
    by (simp add: onClick_def)
  show "onClick (status (handleStopSession s)) = Some HandleStartSession"
    by (simp add: handleStopSession_eq onClick_def)
next
  assume n: "sessionRef s = None \<and> audioContextsRef s = None"
  then show "calls (handleStopSession s) = calls s @ map SourceStop (sourcesRef s)"
    by (simp add: handleStopSession_eq)
  from n show "handleStopSession (handleStopSession s) = handleStopSession s"
    by (simp add: handleStopSession_eq)
qed (simp_all add: handleStopSession_eq)

theorem handleStopSession_repeated_witness:
  "sessionRef initial = None \<and> audioContextsRef initial = None
   \<and> handleStopSession (handleStopSession initial) = handleStopSession initial
   \<and> calls (handleStopSession initial) = []
   \<and> onClick ACTIVE = Some HandleStopSession
   \<and> onClick (status (handleStopSession started)) = Some HandleStartSession
   \<and> closes started = [SessionClose 1, ContextClose 2, ContextClose 3]
   \<and> handleStopSession (handleStopSession started) =
       (handleStopSession started)\<lparr>calls := calls (handleStopSession started)
          @ [SessionClose 1, ContextClose 2, ContextClose 3]\<rparr>"
proof -
  have i: "sessionRef initial = None \<and> audioContextsRef initial = None" "calls initial = []"
    "sourcesRef initial = []"
    by (simp_all add: initial_def)
  have c: "closes started = [SessionClose 1, ContextClose 2, ContextClose 3]"
    by (simp add: closes_def started_def initial_def)
  note a = handleStopSession_repeated [of initial ACTIVE]
  note b = handleStopSession_repeated [of started ACTIVE]
  from a i have 1: "handleStopSession (handleStopSession initial) = handleStopSession initial"
    by blast
  from a i have 2: "calls (handleStopSession initial) = []"
    by simp
  from a have 3: "onClick ACTIVE = Some HandleStopSession"
    by blast
  from b have 4: "onClick (status (handleStopSession started)) = Some HandleStartSession"
    by blast
  from b have 5: "handleStopSession (handleStopSession started) =
       (handleStopSession started)\<lparr>calls := calls (handleStopSession started) @ closes started\<rparr>"
    by blast
  from i(1) 1 2 3 4 5 c show ?thesis by simp
qed

section \<open>Identities of the messages\<close>

text \<open>
  Two user turns finalised while \<open>Date.now()\<close> reads 1000 both times: the log holds two
  different messages with the id \<open>u-1000\<close>.
\<close>

theorem same_millisecond_counterexample:
  "messages (run decodeAudio
      [Message reads_1000 0 (user_turn ''Hi''), Message reads_1000 0 (user_turn ''Yo'')] initial)
   = [\<lparr>id_msg = ''u-1000'', role = User, text_msg = ''Hi'', timestamp = 1000\<rparr>,
      \<lparr>id_msg = ''u-1000'', role = User, text_msg = ''Yo'', timestamp = 1000\<rparr>]
   \<and> \<not> distinct (map id_msg (messages (run decodeAudio
      [Message reads_1000 0 (user_turn ''Hi''), Message reads_1000 0 (user_turn ''Yo'')] initial)))"
proof -
  have t: "trim ''Hi'' = ''Hi''" "trim ''Yo'' = ''Yo''"
    by (simp_all add: trim_def is_space_def)
  have r: "now_uid reads_1000 = 1000" "now_uts reads_1000 = 1000"
    by (simp_all add: reads_1000_def)
  have m: "audioData (user_turn f) = None" "turnComplete (user_turn f)"
    "inputTranscription (user_turn f) = Some f" "outputTranscription (user_turn f) = None"
    "\<not> interrupted (user_turn f)" for f
    by (simp_all add: user_turn_def)
  have step: "snd (onmessage decodeAudio reads_1000 0 (user_turn f) s)
      = finalizeTurn reads_1000 (appendTranscription (user_turn f) s)" for f s
    by (simp add: onmessage_no_audio m before_audio_def)
  have 1: "snd (onmessage decodeAudio reads_1000 0 (user_turn ''Hi'') initial)
      = initial\<lparr>messages :=
          [\<lparr>id_msg = ''u-1000'', role = User, text_msg = ''Hi'', timestamp = 1000\<rparr>]\<rparr>"
    by (simp add: step finalizeTurn_eq appendTranscription_def m t r number_text_1000 trim_Nil
          initial_def)
  have 2: "snd (onmessage decodeAudio reads_1000 0 (user_turn ''Yo'')
        (initial\<lparr>messages :=
          [\<lparr>id_msg = ''u-1000'', role = User, text_msg = ''Hi'', timestamp = 1000\<rparr>]\<rparr>))
      = initial\<lparr>messages :=
          [\<lparr>id_msg = ''u-1000'', role = User, text_msg = ''Hi'', timestamp = 1000\<rparr>,
           \<lparr>id_msg = ''u-1000'', role = User, text_msg = ''Yo'', timestamp = 1000\<rparr>]\<rparr>"
    by (simp add: step finalizeTurn_eq appendTranscription_def m t r number_text_1000 trim_Nil
          initial_def)
  show ?thesis by (simp add: 1 2)
qed

lemma user_id_inj: "''u-'' @ number_text a = ''u-'' @ number_text b \<Longrightarrow> a = b"
  by (simp add: number_text_inj)

lemma model_id_inj: "''m-'' @ number_text a = ''m-'' @ number_text b \<Longrightarrow> a = b"
  by (simp add: number_text_inj)

lemma onmessage_ids:
  assumes d: "distinct (map id_msg (messages s))"
    and sub: "id_msg ` set (messages s)
              \<subseteq> (\<lambda>t. ''u-'' @ number_text t) ` U \<union> (\<lambda>t. ''m-'' @ number_text t) ` M"
    and fresh: "turnComplete m \<longrightarrow> now_uid r \<notin> U \<and> now_mid r \<notin> M"
  shows "distinct (map id_msg (messages (snd (onmessage dec r t m s))))
    \<and> id_msg ` set (messages (snd (onmessage dec r t m s)))
        \<subseteq> (\<lambda>t. ''u-'' @ number_text t) ` (if turnComplete m then insert (now_uid r) U else U)
          \<union> (\<lambda>t. ''m-'' @ number_text t) ` (if turnComplete m then insert (now_mid r) M else M)"
proof (cases "turnComplete m")
  case False
  with d sub show ?thesis
    by (simp add: onmessage_messages before_audio_messages)
next
  case True
  with fresh have fu: "now_uid r \<notin> U" and fm: "now_mid r \<notin> M" by simp_all
  have nu: "''u-'' @ number_text (now_uid r) \<notin> id_msg ` set (messages s)"
  proof
    assume "''u-'' @ number_text (now_uid r) \<in> id_msg ` set (messages s)"
    with sub have "''u-'' @ number_text (now_uid r)
        \<in> (\<lambda>t. ''u-'' @ number_text t) ` U \<union> (\<lambda>t. ''m-'' @ number_text t) ` M" by blast
    then show False
    proof
      assume "''u-'' @ number_text (now_uid r) \<in> (\<lambda>t. ''u-'' @ number_text t) ` U"
      then obtain t where "t \<in> U" "''u-'' @ number_text (now_uid r) = ''u-'' @ number_text t"
        by blast
      with user_id_inj fu show False by blast
    next
      assume "''u-'' @ number_text (now_uid r) \<in> (\<lambda>t. ''m-'' @ number_text t) ` M"
      then show False by auto
    qed
  qed
  have nm: "''m-'' @ number_text (now_mid r) \<notin> id_msg ` set (messages s)"
  proof
    assume "''m-'' @ number_text (now_mid r) \<in> id_msg ` set (messages s)"
    with sub have "''m-'' @ number_text (now_mid r)
        \<in> (\<lambda>t. ''u-'' @ number_text t) ` U \<union> (\<lambda>t. ''m-'' @ number_text t) ` M" by blast
    then show False
    proof
      assume "''m-'' @ number_text (now_mid r) \<in> (\<lambda>t. ''m-'' @ number_text t) ` M"
      then obtain t where "t \<in> M" "''m-'' @ number_text (now_mid r) = ''m-'' @ number_text t"
        by blast
      with model_id_inj fm show False by blast
    next
      assume "''m-'' @ number_text (now_mid r) \<in> (\<lambda>t. ''u-'' @ number_text t) ` U"
      then show False by auto
    qed
  qed
  from True d nu nm have 1: "distinct (map id_msg (messages (snd (onmessage dec r t m s))))"
    by (simp add: onmessage_messages before_audio_messages)
  from True sub have 2: "id_msg ` set (messages (snd (onmessage dec r t m s)))
        \<subseteq> (\<lambda>t. ''u-'' @ number_text t) ` (insert (now_uid r) U)
          \<union> (\<lambda>t. ''m-'' @ number_text t) ` (insert (now_mid r) M)"
    by (auto simp add: onmessage_messages before_audio_messages)
  from True 1 2 show ?thesis by simp
qed

lemma run_ids:
  "distinct (map id_msg (messages s)) \<Longrightarrow>
   id_msg ` set (messages s)
     \<subseteq> (\<lambda>t. ''u-'' @ number_text t) ` U \<union> (\<lambda>t. ''m-'' @ number_text t) ` M \<Longrightarrow>
   distinct (map now_uid (finalising_reads es)) \<Longrightarrow>
   distinct (map now_mid (finalising_reads es)) \<Longrightarrow>
   U \<inter> now_uid ` set (finalising_reads es) = {} \<Longrightarrow>
   M \<inter> now_mid ` set (finalising_reads es) = {} \<Longrightarrow>
   distinct (map id_msg (messages (run dec es s)))"
proof (induction es arbitrary: s U M)
  case Nil
  then show ?case by simp
next
  case (Cons e es)
  show ?case
  proof (cases e)
    case (Ended source)
    with Cons.IH[of s U M] Cons.prems show ?thesis
      by (simp add: onended_def)
  next
    case (Message r t m)
    let ?s' = "snd (onmessage dec r t m s)"
    let ?U' = "if turnComplete m then insert (now_uid r) U else U"
    let ?M' = "if turnComplete m then insert (now_mid r) M else M"
    from Cons.prems(5,6) Message have fresh: "turnComplete m \<longrightarrow> now_uid r \<notin> U \<and> now_mid r \<notin> M"
      by auto
    from onmessage_ids[OF Cons.prems(1) Cons.prems(2) fresh, of dec t]
    have d': "distinct (map id_msg (messages ?s'))"
      and sub': "id_msg ` set (messages ?s')
        \<subseteq> (\<lambda>t. ''u-'' @ number_text t) ` ?U' \<union> (\<lambda>t. ''m-'' @ number_text t) ` ?M'"
      by blast+
    from Cons.prems(3) Message have du: "distinct (map now_uid (finalising_reads es))"
      by (simp split: if_splits)
    from Cons.prems(4) Message have dm: "distinct (map now_mid (finalising_reads es))"
      by (simp split: if_splits)
    from Cons.prems(3,5) Message have iu: "?U' \<inter> now_uid ` set (finalising_reads es) = {}"
      by (auto split: if_splits)
    from Cons.prems(4,6) Message have im: "?M' \<inter> now_mid ` set (finalising_reads es) = {}"
      by (auto split: if_splits)
    from Cons.IH[OF d' sub' du dm iu im] Message show ?thesis by simp
  qed
qed

text \<open>
  C9, as the code has it. An id is the role's prefix followed by the \<open>Date.now()\<close>
  reading taken for it. Starting from an empty log, the ids in the log are pairwise
  different after any run of events in which no two finalising messages read the same
  value for the user's id, nor for the model's id.
\<close>

theorem ids_unique_when_reads_differ:
  assumes "messages s = []"
    and "distinct (map now_uid (finalising_reads es))"
    and "distinct (map now_mid (finalising_reads es))"
  shows "distinct (map id_msg (messages (run dec es s)))"
  using assms run_ids[of s "{}" "{}" es dec] by simp

theorem ids_unique_when_reads_differ_witness:
  "messages initial = []
   \<and> map now_uid (finalising_reads
        [Message reads_1000 0 (user_turn ''Hi''),
         Message \<lparr>now_uid = 1001, now_uts = 1001, now_mid = 1001, now_mts = 1001\<rparr> 0
           (user_turn ''Yo'')]) = [1000, 1001]
   \<and> map now_mid (finalising_reads
        [Message reads_1000 0 (user_turn ''Hi''),
         Message \<lparr>now_uid = 1001, now_uts = 1001, now_mid = 1001, now_mts = 1001\<rparr> 0
           (user_turn ''Yo'')]) = [1000, 1001]
   \<and> distinct (map id_msg (messages (run decodeAudio
        [Message reads_1000 0 (user_turn ''Hi''),
         Message \<lparr>now_uid = 1001, now_uts = 1001, now_mid = 1001, now_mts = 1001\<rparr> 0
           (user_turn ''Yo'')] initial)))"
proof -
  let ?es = "[Message reads_1000 0 (user_turn ''Hi''),
         Message \<lparr>now_uid = 1001, now_uts = 1001, now_mid = 1001, now_mts = 1001\<rparr> 0
           (user_turn ''Yo'')]"
  have i: "messages initial = []"
    by (simp add: initial_def)
  have u: "map now_uid (finalising_reads ?es) = [1000, 1001]"
    by (simp add: user_turn_def reads_1000_def)
  have m: "map now_mid (finalising_reads ?es) = [1000, 1001]"
    by (simp add: user_turn_def reads_1000_def)
  have du: "distinct (map now_uid (finalising_reads ?es))"
    unfolding u by simp
  have dm: "distinct (map now_mid (finalising_reads ?es))"
    unfolding m by simp
  from ids_unique_when_reads_differ [OF i du dm, of decodeAudio] i u m
  show ?thesis by simp
qed

section \<open>Scheduling of audio chunks\<close>

lemma onmessage_enqueues:
  assumes "\<not> interrupted m" and "audioData m = Some a" and "a \<noteq> []"
    and "audioContextsRef s \<noteq> None" and "dec a = Inr dur"
  shows "calls (snd (onmessage dec d t m s)) =
           calls s @ [SourceStart \<lparr>node = nodesCreated s, buffer_duration = dur,
                                   startedAt = max (nextStartTimeRef s) t\<rparr>]"
    and "nextStartTimeRef (snd (onmessage dec d t m s)) = max (nextStartTimeRef s) t + dur"
    and "audioContextsRef (snd (onmessage dec d t m s)) = audioContextsRef s"
    and "nodesCreated (snd (onmessage dec d t m s)) = Suc (nodesCreated s)"
proof -
  have eq: "onmessage dec d t m s = (Returned, snd (enqueue dec t a (before_audio d m s)))"
    using assms(1) by (simp add: onmessage_decoded[OF assms(2) assms(3) assms(4), of dec dur, OF assms(5)])
  note en = enqueue_decoded[of dec a dur t "before_audio d m s", OF assms(5)]
  show "calls (snd (onmessage dec d t m s)) =
           calls s @ [SourceStart \<lparr>node = nodesCreated s, buffer_duration = dur,
                                   startedAt = max (nextStartTimeRef s) t\<rparr>]"
    by (simp add: eq en before_audio_fields)
  show "nextStartTimeRef (snd (onmessage dec d t m s)) = max (nextStartTimeRef s) t + dur"
    by (simp add: eq en before_audio_fields)
  show "audioContextsRef (snd (onmessage dec d t m s)) = audioContextsRef s"
    by (simp add: eq en before_audio_fields)
  show "nodesCreated (snd (onmessage dec d t m s)) = Suc (nodesCreated s)"
    by (simp add: eq en before_audio_fields)
qed

lemma run_audio_chain:
  "audioContextsRef s \<noteq> None \<Longrightarrow>
   \<forall>c \<in> set chunks. \<not> interrupted (snd (snd c))
      \<and> (\<exists>a dur. audioData (snd (snd c)) = Some a \<and> a \<noteq> [] \<and> dec a = Inr dur) \<Longrightarrow>
   \<exists>xs. scheduled (calls (run dec (map inbound chunks) s)) = scheduled (calls s) @ xs
      \<and> length xs = length chunks
      \<and> (\<forall>i<length xs.
            (\<exists>a. audioData (snd (snd (chunks ! i))) = Some a
                 \<and> dec a = Inr (buffer_duration (xs ! i)))
            \<and> startedAt (xs ! i) =
                max (if i = 0 then nextStartTimeRef s
                     else startedAt (xs ! (i - 1)) + buffer_duration (xs ! (i - 1)))
                    (fst (snd (chunks ! i))))
      \<and> nextStartTimeRef (run dec (map inbound chunks) s) =
          (if xs = [] then nextStartTimeRef s
           else startedAt (last xs) + buffer_duration (last xs))"
proof (induction chunks arbitrary: s)
  case Nil
  then show ?case by simp
next
  case (Cons chunk chunks)
  obtain d t m where chunk: "chunk = (d, t, m)" by (cases chunk)
  from Cons.prems(2) chunk obtain a dur where ni: "\<not> interrupted m"
    and au: "audioData m = Some a" and a: "a \<noteq> []" and dur: "dec a = Inr dur"
    by auto
  let ?x = "\<lparr>node = nodesCreated s, buffer_duration = dur,
             startedAt = max (nextStartTimeRef s) t\<rparr>"
  let ?s' = "snd (onmessage dec d t m s)"
  note on = onmessage_enqueues[OF ni au a Cons.prems(1), of dec dur d t, OF dur]
  have step: "run dec (map inbound (chunk # chunks)) s = run dec (map inbound chunks) ?s'"
    by (simp add: chunk inbound_def)
  have ctx': "audioContextsRef ?s' \<noteq> None"
    using Cons.prems(1) by (simp add: on(3))
  have calls': "scheduled (calls ?s') = scheduled (calls s) @ [?x]"
    by (simp add: on(1) scheduled_append)
  have cur': "nextStartTimeRef ?s' = startedAt ?x + buffer_duration ?x"
    by (simp add: on(2))
  from Cons.prems(2) have rest: "\<forall>c \<in> set chunks. \<not> interrupted (snd (snd c))
      \<and> (\<exists>a dur. audioData (snd (snd c)) = Some a \<and> a \<noteq> [] \<and> dec a = Inr dur)"
    by simp
  from Cons.IH[OF ctx' rest] obtain ys where
    ys1: "scheduled (calls (run dec (map inbound chunks) ?s')) = scheduled (calls ?s') @ ys"
    and ys2: "length ys = length chunks"
    and ys3: "\<forall>i<length ys.
            (\<exists>a. audioData (snd (snd (chunks ! i))) = Some a
                 \<and> dec a = Inr (buffer_duration (ys ! i)))
            \<and> startedAt (ys ! i) =
                max (if i = 0 then nextStartTimeRef ?s'
                     else startedAt (ys ! (i - 1)) + buffer_duration (ys ! (i - 1)))
                    (fst (snd (chunks ! i)))"
    and ys4: "nextStartTimeRef (run dec (map inbound chunks) ?s') =
          (if ys = [] then nextStartTimeRef ?s'
           else startedAt (last ys) + buffer_duration (last ys))"
    by blast
  have 1: "scheduled (calls (run dec (map inbound (chunk # chunks)) s))
           = scheduled (calls s) @ (?x # ys)"
    by (simp only: step ys1 calls') simp
  have 2: "length (?x # ys) = length (chunk # chunks)"
    using ys2 by simp
  have 3: "(\<exists>a. audioData (snd (snd ((chunk # chunks) ! i))) = Some a
                 \<and> dec a = Inr (buffer_duration ((?x # ys) ! i)))
            \<and> startedAt ((?x # ys) ! i) =
                max (if i = 0 then nextStartTimeRef s
                     else startedAt ((?x # ys) ! (i - 1)) + buffer_duration ((?x # ys) ! (i - 1)))
                    (fst (snd ((chunk # chunks) ! i)))" if i: "i < length (?x # ys)" for i
  proof (cases i)
    case 0
    then show ?thesis by (simp add: chunk au dur)
  next
    case (Suc j)
    with i have j: "j < length ys" by simp
    from ys3 j have hh: "(\<exists>a. audioData (snd (snd (chunks ! j))) = Some a
                 \<and> dec a = Inr (buffer_duration (ys ! j)))
      \<and> startedAt (ys ! j) =
                max (if j = 0 then nextStartTimeRef ?s'
                     else startedAt (ys ! (j - 1)) + buffer_duration (ys ! (j - 1)))
                    (fst (snd (chunks ! j)))" by blast
    note h = conjunct1[OF hh] conjunct2[OF hh]
    show ?thesis
    proof (cases j)
      case 0
      with h Suc cur' show ?thesis by simp
    next
      case (Suc k)
      with h \<open>i = Suc j\<close> show ?thesis by simp
    qed
  qed
  have 4: "nextStartTimeRef (run dec (map inbound (chunk # chunks)) s) =
          (if ?x # ys = [] then nextStartTimeRef s
           else startedAt (last (?x # ys)) + buffer_duration (last (?x # ys)))"
    using ys4 cur' by (simp only: step) simp
  from 1 2 3 4 show ?case by blast
qed

text \<open>
  Two chunks of 1/8000 s, the first handled when the output clock reads 0 and the second
  when it reads 1: the first ends at 1/8000 and the second starts at 1, so playback has
  a gap after the first chunk.
\<close>

theorem late_chunk_counterexample:
  "scheduled (calls (run decodeAudio
      (map inbound [(no_reads, 0, audio_only ''AAAAAAAA''), (no_reads, 1, audio_only ''AAAAAAAA'')])
      started))
   = [\<lparr>node = 0, buffer_duration = 1 / 8000, startedAt = 0\<rparr>,
      \<lparr>node = 1, buffer_duration = 1 / 8000, startedAt = 1\<rparr>]
   \<and> startedAt (scheduled (calls (run decodeAudio
        (map inbound [(no_reads, 0, audio_only ''AAAAAAAA''), (no_reads, 1, audio_only ''AAAAAAAA'')])
        started)) ! 0)
     + buffer_duration (scheduled (calls (run decodeAudio
        (map inbound [(no_reads, 0, audio_only ''AAAAAAAA''), (no_reads, 1, audio_only ''AAAAAAAA'')])
        started)) ! 0)
     < startedAt (scheduled (calls (run decodeAudio
        (map inbound [(no_reads, 0, audio_only ''AAAAAAAA''), (no_reads, 1, audio_only ''AAAAAAAA'')])
        started)) ! 1)"
proof -
  have m: "\<not> interrupted (audio_only ''AAAAAAAA'')"
    "audioData (audio_only ''AAAAAAAA'') = Some ''AAAAAAAA''"
    by (simp_all add: audio_only_def)
  have a: "''AAAAAAAA'' \<noteq> []" by simp
  have step: "audioContextsRef s \<noteq> None \<Longrightarrow>
      calls (snd (onmessage decodeAudio no_reads t (audio_only ''AAAAAAAA'') s)) =
           calls s @ [SourceStart \<lparr>node = nodesCreated s, buffer_duration = 1 / 8000,
                                   startedAt = max (nextStartTimeRef s) t\<rparr>]
      \<and> nextStartTimeRef (snd (onmessage decodeAudio no_reads t (audio_only ''AAAAAAAA'') s))
          = max (nextStartTimeRef s) t + 1 / 8000
      \<and> nodesCreated (snd (onmessage decodeAudio no_reads t (audio_only ''AAAAAAAA'') s))
          = Suc (nodesCreated s)
      \<and> audioContextsRef (snd (onmessage decodeAudio no_reads t (audio_only ''AAAAAAAA'') s))
          = audioContextsRef s" for s t
    by (simp add: onmessage_audio_only
          enqueue_decoded[of decodeAudio "''AAAAAAAA''" "1 / 8000"] decodeAudio_examples)
  have s: "audioContextsRef started \<noteq> None" "calls started = []" "nodesCreated started = 0"
    "nextStartTimeRef started = 0"
    by (simp_all add: started_def initial_def)
  let ?s1 = "snd (onmessage decodeAudio no_reads 0 (audio_only ''AAAAAAAA'') started)"
  have 1: "calls ?s1 = [SourceStart \<lparr>node = 0, buffer_duration = 1 / 8000, startedAt = 0\<rparr>]"
    "nextStartTimeRef ?s1 = 1 / 8000" "nodesCreated ?s1 = Suc 0" "audioContextsRef ?s1 \<noteq> None"
    using step[OF s(1), of 0] s by simp_all
  have 2: "calls (snd (onmessage decodeAudio no_reads 1 (audio_only ''AAAAAAAA'') ?s1))
      = [SourceStart \<lparr>node = 0, buffer_duration = 1 / 8000, startedAt = 0\<rparr>,
         SourceStart \<lparr>node = 1, buffer_duration = 1 / 8000, startedAt = 1\<rparr>]"
    using step[OF 1(4), of 1] 1 by simp
  have run: "scheduled (calls (run decodeAudio
      (map inbound [(no_reads, 0, audio_only ''AAAAAAAA''), (no_reads, 1, audio_only ''AAAAAAAA'')])
      started))
   = [\<lparr>node = 0, buffer_duration = 1 / 8000, startedAt = 0\<rparr>,
      \<lparr>node = 1, buffer_duration = 1 / 8000, startedAt = 1\<rparr>]"
    by (simp add: inbound_def 2)
  show ?thesis
    unfolding run by simp
qed

text \<open>
  C1, as the code has it. A run of messages that each carry a payload decoding to a
  buffer of non-negative duration and no \<open>interrupted\<close> flag, whatever else they carry,
  on a session whose audio contexts exist: every chunk is started at the maximum of the
  cursor and the output clock read when its message is handled, and the cursor then is
  that start time plus the chunk's duration. So each start time is at least the previous
  start time plus the previous duration, and the start times are non-decreasing. A chunk
  starts exactly where the previous one ends if and only if the clock has not passed the
  cursor when its message is handled; a chunk handled later starts at the clock's reading.
\<close>

theorem enqueue_schedule:
  assumes "audioContextsRef s \<noteq> None"
    and "\<forall>c \<in> set chunks. \<not> interrupted (snd (snd c))
      \<and> (\<exists>a dur. audioData (snd (snd c)) = Some a \<and> a \<noteq> [] \<and> dec a = Inr dur \<and> 0 \<le> dur)"
  shows "\<exists>xs. scheduled (calls (run dec (map inbound chunks) s)) = scheduled (calls s) @ xs
      \<and> length xs = length chunks
      \<and> (\<forall>i<length xs.
            (\<exists>a. audioData (snd (snd (chunks ! i))) = Some a
                 \<and> dec a = Inr (buffer_duration (xs ! i)))
            \<and> startedAt (xs ! i) =
                max (if i = 0 then nextStartTimeRef s
                     else startedAt (xs ! (i - 1)) + buffer_duration (xs ! (i - 1)))
                    (fst (snd (chunks ! i))))
      \<and> (\<forall>i. Suc i < length xs \<longrightarrow>
            startedAt (xs ! i) + buffer_duration (xs ! i) \<le> startedAt (xs ! Suc i))
      \<and> (\<forall>i. Suc i < length xs \<longrightarrow>
            (startedAt (xs ! Suc i) = startedAt (xs ! i) + buffer_duration (xs ! i)
             \<longleftrightarrow> fst (snd (chunks ! Suc i)) \<le> startedAt (xs ! i) + buffer_duration (xs ! i)))
      \<and> (\<forall>i. Suc i < length xs
              \<and> startedAt (xs ! i) + buffer_duration (xs ! i) < fst (snd (chunks ! Suc i)) \<longrightarrow>
            startedAt (xs ! Suc i) = fst (snd (chunks ! Suc i)))
      \<and> sorted (map startedAt xs)
      \<and> nextStartTimeRef (run dec (map inbound chunks) s) =
          (if xs = [] then nextStartTimeRef s
           else startedAt (last xs) + buffer_duration (last xs))"
proof -
  from assms(2) have ok: "\<forall>c \<in> set chunks. \<not> interrupted (snd (snd c))
      \<and> (\<exists>a dur. audioData (snd (snd c)) = Some a \<and> a \<noteq> [] \<and> dec a = Inr dur)"
    by blast
  from run_audio_chain[OF assms(1) ok] obtain xs where
    1: "scheduled (calls (run dec (map inbound chunks) s)) = scheduled (calls s) @ xs"
    and 2: "length xs = length chunks"
    and 3: "\<forall>i<length xs.
            (\<exists>a. audioData (snd (snd (chunks ! i))) = Some a
                 \<and> dec a = Inr (buffer_duration (xs ! i)))
            \<and> startedAt (xs ! i) =
                max (if i = 0 then nextStartTimeRef s
                     else startedAt (xs ! (i - 1)) + buffer_duration (xs ! (i - 1)))
                    (fst (snd (chunks ! i)))"
    and 4: "nextStartTimeRef (run dec (map inbound chunks) s) =
          (if xs = [] then nextStartTimeRef s
           else startedAt (last xs) + buffer_duration (last xs))"
    by blast
  have start: "startedAt (xs ! Suc i) =
        max (startedAt (xs ! i) + buffer_duration (xs ! i)) (fst (snd (chunks ! Suc i)))"
    if "Suc i < length xs" for i
    using 3[rule_format, OF that] by simp
  have next_start: "startedAt (xs ! i) + buffer_duration (xs ! i) \<le> startedAt (xs ! Suc i)"
    if "Suc i < length xs" for i
    using start[OF that] by linarith
  have no_gap: "startedAt (xs ! Suc i) = startedAt (xs ! i) + buffer_duration (xs ! i)
             \<longleftrightarrow> fst (snd (chunks ! Suc i)) \<le> startedAt (xs ! i) + buffer_duration (xs ! i)"
    if "Suc i < length xs" for i
    using start[OF that] by linarith
  have gap: "startedAt (xs ! Suc i) = fst (snd (chunks ! Suc i))"
    if "Suc i < length xs
        \<and> startedAt (xs ! i) + buffer_duration (xs ! i) < fst (snd (chunks ! Suc i))" for i
  proof -
    from that have l: "Suc i < length xs" by (rule conjunct1)
    from start[OF l] that show ?thesis by linarith
  qed
  have nonneg: "0 \<le> buffer_duration (xs ! i)" if "i < length xs" for i
  proof -
    from 3[rule_format, OF that] obtain a where
      e: "audioData (snd (snd (chunks ! i))) = Some a" "dec a = Inr (buffer_duration (xs ! i))"
      by blast
    from that 2 have "chunks ! i \<in> set chunks" by simp
    with assms(2) obtain a' dur where "audioData (snd (snd (chunks ! i))) = Some a'"
      "dec a' = Inr dur" "0 \<le> dur" by blast
    with e show ?thesis by simp
  qed
  have mono: "startedAt (xs ! i) \<le> startedAt (xs ! Suc i)" if "Suc i < length xs" for i
    using next_start[OF that] nonneg[of i] that by linarith
  have sorted: "sorted (map startedAt xs)"
    unfolding sorted_iff_nth_Suc using mono by simp
  from 1 2 3 4 next_start no_gap gap sorted show ?thesis by blast
qed

theorem enqueue_schedule_witness:
  "audioContextsRef started \<noteq> None
   \<and> \<not> interrupted (audio_only ''AAAAAAAA'') \<and> \<not> interrupted fragment_and_audio
   \<and> audioData (audio_only ''AAAAAAAA'') = Some ''AAAAAAAA''
   \<and> audioData fragment_and_audio = Some ''AAAAAAAA''
   \<and> ''AAAAAAAA'' \<noteq> [] \<and> decodeAudio ''AAAAAAAA'' = Inr (1 / 8000)
   \<and> scheduled (calls (run decodeAudio
        (map inbound [(no_reads, 0, audio_only ''AAAAAAAA''),
                      (no_reads, 1 / 16000, fragment_and_audio),
                      (no_reads, 1, audio_only ''AAAAAAAA'')]) started))
      = [\<lparr>node = 0, buffer_duration = 1 / 8000, startedAt = 0\<rparr>,
         \<lparr>node = 1, buffer_duration = 1 / 8000, startedAt = 1 / 8000\<rparr>,
         \<lparr>node = 2, buffer_duration = 1 / 8000, startedAt = 1\<rparr>]
   \<and> sorted (map startedAt (scheduled (calls (run decodeAudio
        (map inbound [(no_reads, 0, audio_only ''AAAAAAAA''),
                      (no_reads, 1 / 16000, fragment_and_audio),
                      (no_reads, 1, audio_only ''AAAAAAAA'')]) started))))"
proof -
  let ?chunks = "[(no_reads, 0, audio_only ''AAAAAAAA''),
                  (no_reads, 1 / 16000, fragment_and_audio),
                  (no_reads, 1 :: real, audio_only ''AAAAAAAA'')]"
  have ctx: "audioContextsRef started \<noteq> None"
    by (simp add: started_def)
  have m: "\<not> interrupted (audio_only ''AAAAAAAA'')" "\<not> interrupted fragment_and_audio"
    "audioData (audio_only ''AAAAAAAA'') = Some ''AAAAAAAA''"
    "audioData fragment_and_audio = Some ''AAAAAAAA''"
    by (simp_all add: audio_only_def fragment_and_audio_def)
  have a: "''AAAAAAAA'' \<noteq> []" by simp
  note dec = decodeAudio_examples(1)
  have ex: "\<exists>a dur. Some ''AAAAAAAA'' = Some a \<and> a \<noteq> [] \<and> decodeAudio a = Inr dur \<and> 0 \<le> dur"
    by (intro exI[of _ "''AAAAAAAA''"] exI[of _ "1 / 8000"]) (simp add: dec)
  have ok: "\<forall>c \<in> set ?chunks. \<not> interrupted (snd (snd c))
      \<and> (\<exists>a dur. audioData (snd (snd c)) = Some a \<and> a \<noteq> [] \<and> decodeAudio a = Inr dur \<and> 0 \<le> dur)"
    using ex by (simp add: m)
  have none: "scheduled (calls started) = []"
    by (simp add: started_def initial_def)
  from enqueue_schedule[OF ctx ok] none
  have sorted: "sorted (map startedAt (scheduled (calls (run decodeAudio (map inbound ?chunks) started))))"
    by auto
  have s: "calls started = []" "nodesCreated started = 0" "nextStartTimeRef started = 0"
    by (simp_all add: started_def initial_def)
  let ?s1 = "snd (onmessage decodeAudio no_reads 0 (audio_only ''AAAAAAAA'') started)"
  let ?s2 = "snd (onmessage decodeAudio no_reads (1 / 16000) fragment_and_audio ?s1)"
  let ?s3 = "snd (onmessage decodeAudio no_reads 1 (audio_only ''AAAAAAAA'') ?s2)"
  note on1 = onmessage_enqueues[OF m(1) m(3) a ctx, of decodeAudio "1 / 8000" no_reads 0, OF dec]
  have 1: "calls ?s1 = [SourceStart \<lparr>node = 0, buffer_duration = 1 / 8000, startedAt = 0\<rparr>]"
    "nextStartTimeRef ?s1 = 1 / 8000" "nodesCreated ?s1 = Suc 0" "audioContextsRef ?s1 \<noteq> None"
    using on1 s ctx by simp_all
  note on2 = onmessage_enqueues[OF m(2) m(4) a 1(4), of decodeAudio "1 / 8000" no_reads "1 / 16000", OF dec]
  have 2: "calls ?s2 = [SourceStart \<lparr>node = 0, buffer_duration = 1 / 8000, startedAt = 0\<rparr>,
        SourceStart \<lparr>node = 1, buffer_duration = 1 / 8000, startedAt = 1 / 8000\<rparr>]"
    "nextStartTimeRef ?s2 = 1 / 4000" "nodesCreated ?s2 = Suc (Suc 0)" "audioContextsRef ?s2 \<noteq> None"
    using on2 1 by simp_all
  note on3 = onmessage_enqueues[OF m(1) m(3) a 2(4), of decodeAudio "1 / 8000" no_reads 1, OF dec]
  have 3: "calls ?s3 = [SourceStart \<lparr>node = 0, buffer_duration = 1 / 8000, startedAt = 0\<rparr>,
        SourceStart \<lparr>node = 1, buffer_duration = 1 / 8000, startedAt = 1 / 8000\<rparr>,
        SourceStart \<lparr>node = 2, buffer_duration = 1 / 8000, startedAt = 1\<rparr>]"
    using on3 2 by simp
  have run: "scheduled (calls (run decodeAudio (map inbound ?chunks) started))
      = [\<lparr>node = 0, buffer_duration = 1 / 8000, startedAt = 0\<rparr>,
         \<lparr>node = 1, buffer_duration = 1 / 8000, startedAt = 1 / 8000\<rparr>,
         \<lparr>node = 2, buffer_duration = 1 / 8000, startedAt = 1\<rparr>]"
    by (simp add: inbound_def 3)
  from ctx m a dec sorted run show ?thesis by simp
qed

end
